theory Spec2Isabelle
  imports Main "HOL-Library.Word" "HOL-Library.Signed_Division"
begin

unbundle bit_operations_syntax

section \<open>Machine integers of the driver\<close>

text \<open>
  The driver (drivers/power/supply/qcom/smb235x-charger.c) computes on C \<open>int\<close>,
  \<open>u32\<close> and \<open>u8\<close>.  A C \<open>int\<close> is kept as a 32-bit word read in two's complement
  (\<open>sint\<close>, \<open><s\<close>, \<open>\<le>s\<close>); \<open>/\<close> of C truncates towards zero.  Return codes
  (\<open>rc\<close>) are only ever tested with \<open>rc < 0\<close> and are kept as HOL integers.
\<close>

type_synonym u8 = "8 word"
type_synonym u32 = "32 word"
type_synonym s32 = "32 word"

definition c_div :: "s32 \<Rightarrow> s32 \<Rightarrow> s32" where
  "c_div a b = word_of_int (sint a sdiv sint b)"

text \<open>Conversion of an \<open>int\<close> or \<open>u32\<close> value to \<open>u8\<close> and back to the \<open>unsigned int\<close>
  argument of a register write.\<close>

definition to_u8 :: "32 word \<Rightarrow> u8" where
  "to_u8 x = ucast x"

definition of_u8 :: "u8 \<Rightarrow> u32" where
  "of_u8 x = ucast x"

definition EINVAL :: int where "EINVAL = 22"
definition ENODATA :: int where "ENODATA = 61"

subsection \<open>The constants of the driver\<close>

definition CURRENT_STEP_MA :: s32 where "CURRENT_STEP_MA = 50"
definition MICRO_TO_MILLI :: s32 where "MICRO_TO_MILLI = 1000"
definition FLOAT_VOLTAGE_BASE_MV :: s32 where "FLOAT_VOLTAGE_BASE_MV = 7200"
definition FLOAT_VOLTAGE_STEP_MV :: s32 where "FLOAT_VOLTAGE_STEP_MV = 20"
definition CDP_CURRENT_UA :: s32 where "CDP_CURRENT_UA = 1500000"
definition DCP_CURRENT_UA :: s32 where "DCP_CURRENT_UA = 1500000"
definition HVDCP_CURRENT_UA :: s32 where "HVDCP_CURRENT_UA = 3000000"
definition SDP_500_MA :: s32 where "SDP_500_MA = 500000"
definition BASED_VOLTAGE_UV :: s32 where "BASED_VOLTAGE_UV = 5000000"
definition QC3_DEFAULT_VOLTAGE_UV :: s32 where "QC3_DEFAULT_VOLTAGE_UV = 9000000"
definition QC3_VOLTAGE_STEPS_UV :: s32 where "QC3_VOLTAGE_STEPS_UV = 200000"
definition VOLTAGE_FORCE_5V_UV :: s32 where "VOLTAGE_FORCE_5V_UV = 5000000"
definition VOLTAGE_FORCE_9V_UV :: s32 where "VOLTAGE_FORCE_9V_UV = 9000000"
definition VOLTAGE_FORCE_12V_UV :: s32 where "VOLTAGE_FORCE_12V_UV = 12000000"

text \<open>
  The register map and the bit masks live in smb235x-charger.h, and the property and
  type enumerations in linux/power_supply.h; neither header is part of the sources at
  hand.  Registers and properties are only ever compared by name, so they are
  datatypes.  Masks and enumerators are used as numbers (a charger type can be copied
  from a peer's answer), so their values are a parameter \<open>h\<close> of every function that
  uses one.
\<close>

datatype reg =
    USBIN_LOAD_CFG_REG | USB_CMD_ICL_OVERRIDE_REG | USBIN_CURRENT_LIMIT_CFG_REG
  | CHARGING_ENABLE_CMD_REG | USB_CMD_APSD_REG | USB_HVDCP_PULSE_COUNT_MAX
  | USBIN_OPTIONS_1_CFG_REG | DCDC_POWER_PATH_STATUS_REG | USB_APSP_RESULT_STATUS_REG
  | USB_CMD_HVDCP_2_REG | CHGR_FAST_CHARGE_CURRENT_CFG_REG
  | CHGR_MAX_FAST_CHARGE_CURRENT_CFG_REG | CHGR_FLOAT_VOLTAGE_CFG_REG
  | CHGR_TRICKLE_CHARGE_CURRENT_CFG_REG | CHGR_PRE_CHARGE_CURRENT_CFG_REG
  | CHGR_MAX_PRE_CHARGER_CURRENT_CFG_REG | DCDC_ICL_MAX_STATUS_REG
  | USB_QC_CHANGE_STATUS_REG | BATTERY_CHARGER_STATUS_1_REG
  | CHGR_STEP_CHG_SOC_VBATT_V_REG | CHGR_STEP_CHG_SOC_VBATT_V_UPDATE_REG
  | USB_INT_RT_STS_OFFSET_REG

datatype psp =
    POWER_SUPPLY_PROP_PRESENT | POWER_SUPPLY_PROP_ONLINE
  | POWER_SUPPLY_PROP_CURRENT_MAX | POWER_SUPPLY_PROP_VOLTAGE_MAX
  | POWER_SUPPLY_PROP_VOLTAGE_NOW | POWER_SUPPLY_PROP_CURRENT_NOW
  | POWER_SUPPLY_PROP_SDP_CURRENT_MAX | POWER_SUPPLY_PROP_REAL_TYPE
  | POWER_SUPPLY_PROP_USB_TYPE | POWER_SUPPLY_PROP_CAPACITY
  | POWER_SUPPLY_PROP_CONSTANT_CHARGE_CURRENT_MAX
  | POWER_SUPPLY_PROP_CONSTANT_CHARGE_VOLTAGE_MAX
  | POWER_SUPPLY_PROP_OTHER nat

record hdr =
  ICL_OVERRIDE_AFTER_APSD_BIT :: u32
  ICL_OVERRIDE_BIT :: u32
  USB_APSD_RERUN_BIT :: u32
  HVDCP_PULSE_COUNT_MAX_QC3P0_BIT :: u32
  USBIN_HVDCP_AUTH_ALG_EN_BIT :: u32
  USBIN_HVDCP_AUTONOMOUS_MODE_EN_BIT :: u32
  USBIN_APSD_ENABLE_BIT :: u32
  USBIN_HVDCP_EN_BIT :: u32
  USE_USBIN_BIT :: u32
  VALID_INPUT_POWER_SOURCE_STS_BIT :: u32
  APSD_RESULT_STATUS_MASK :: u32
  FLOAT_CHARGER_BIT :: u32
  DCP_CHARGER_BIT :: u32
  OCP_CHARGER_BIT :: u32
  CDP_CHARGER_BIT :: u32
  SDP_CHARGER_BIT :: u32
  QC_3P0_BIT :: u32
  QC_2P0_BIT :: u32
  SINGLE_INCREMENT_BIT :: u32
  SINGLE_DECREMENT_BIT :: u32
  FORCE_9V_BIT :: u32
  QC_12V_BIT :: u32
  QC_9V_BIT :: u32
  QC_5V_BTI :: u32
  BATTERY_CHARGER_STATUS_MASK :: u32
  TRICKLE_CHARGE :: u32
  PRE_CHARGE :: u32
  FULLON_CHARGE :: u32
  TAPER_CHARGE :: u32
  TERMINATE_CHARGE :: u32
  INHIBIT_CHARGE :: u32
  PAUSE_CHARGE :: u32
  DISABLE_CHARGE :: u32
  CHGR_STEP_SOC_VBATT_V_UPDATE_BIT :: u32
  USBIN_PLUGIN_RT_STS_BIT :: u32
  POWER_SUPPLY_TYPE_UNKNOWN :: s32
  POWER_SUPPLY_TYPE_USB :: s32
  POWER_SUPPLY_TYPE_USB_DCP :: s32
  POWER_SUPPLY_TYPE_USB_CDP :: s32
  POWER_SUPPLY_TYPE_USB_HVDCP :: s32
  POWER_SUPPLY_TYPE_USB_HVDCP_3 :: s32
  POWER_SUPPLY_TYPE_USB_FLOAT :: s32
  POWER_SUPPLY_USB_TYPE_UNKNOWN :: s32
  POWER_SUPPLY_USB_TYPE_SDP :: s32
  POWER_SUPPLY_USB_TYPE_DCP :: s32
  POWER_SUPPLY_USB_TYPE_CDP :: s32
  POWER_SUPPLY_USB_TYPE_C :: s32
  POWER_SUPPLY_STATUS_UNKNOWN :: s32
  POWER_SUPPLY_STATUS_CHARGING :: s32
  POWER_SUPPLY_STATUS_DISCHARGING :: s32
  POWER_SUPPLY_STATUS_NOT_CHARGING :: s32
  POWER_SUPPLY_STATUS_FULL :: s32


section \<open>The charger state and its collaborators\<close>

text \<open>
  Modelled from the spec: the peers behind \<open>power_supply_get_property\<close> (the power-supply
  framework is not part of the sources at hand).  A registered supply answers a
  property query with a return code and the \<open>intval\<close> it stores.
\<close>

type_synonym psy = "psp \<Rightarrow> int \<times> s32"

text \<open>struct smb235x_chg_chip: the fields the modelled functions read or write.  A
  power-supply handle is \<open>None\<close> while the pointer is NULL.\<close>

record chip =
  bms_psy :: "psy option"
  tcpm_psy :: "psy option"
  trickle_charge_current_ua :: s32
  max_pre_charge_current_ua :: s32
  pre_charge_current_ua :: s32
  float_volt_uv :: s32
  fastchg_curr_ua :: s32
  max_fcc_ua :: s32
  sdp_icl_ua :: s32
  charger_type :: s32
  usb_type :: s32
  hvdcp_pulse_count_max :: s32
  hvdcp3_voltage_uv :: s32
  based_hvdcp_voltage_uv :: s32
  pd_active :: bool

text \<open>
  Modelled from the spec: the register bus (regmap), "a synchronous byte-addressable
  register transport with read/write/update-bits operations that may fail".  The
  transactions to come are scripted by their return codes (\<open>rcs\<close>, none left means
  success); a failed transaction changes no register.  Every transaction is recorded,
  newest first, in \<open>trace\<close>.  \<open>bms_reg\<close> and \<open>tcpm_reg\<close> are what
  \<open>power_supply_get_by_name\<close> finds for the two peers.
\<close>

datatype bus_op =
    BusRead reg int
  | BusWrite reg u32 int
  | BusUpdate reg u32 u32 int

record env =
  regs :: "reg \<Rightarrow> u32"
  rcs :: "int list"
  trace :: "bus_op list"
  bms_reg :: "psy option"
  tcpm_reg :: "psy option"

definition next_rc :: "env \<Rightarrow> int" where
  "next_rc e = (case rcs e of [] \<Rightarrow> 0 | rc # _ \<Rightarrow> rc)"

definition regmap_read :: "env \<Rightarrow> reg \<Rightarrow> u32 \<Rightarrow> int \<times> u32 \<times> env" where
  "regmap_read e r old =
     (let rc = next_rc e;
          e' = e\<lparr>rcs := tl (rcs e), trace := BusRead r rc # trace e\<rparr>
      in (rc, if rc < 0 then old else regs e r, e'))"

definition regmap_write :: "env \<Rightarrow> reg \<Rightarrow> u32 \<Rightarrow> int \<times> env" where
  "regmap_write e r v =
     (let rc = next_rc e;
          e' = e\<lparr>rcs := tl (rcs e), trace := BusWrite r v rc # trace e\<rparr>
      in (rc, if rc < 0 then e' else e'\<lparr>regs := (regs e)(r := v)\<rparr>))"

definition regmap_update_bits :: "env \<Rightarrow> reg \<Rightarrow> u32 \<Rightarrow> u32 \<Rightarrow> int \<times> env" where
  "regmap_update_bits e r msk v =
     (let rc = next_rc e;
          e' = e\<lparr>rcs := tl (rcs e), trace := BusUpdate r msk v rc # trace e\<rparr>
      in (rc, if rc < 0 then e'
              else e'\<lparr>regs := (regs e)(r := (regs e r AND NOT msk) OR (v AND msk))\<rparr>))"

section \<open>HVDCP3 voltage stepping\<close>

text \<open>The loop \<open>while (hvdcp_pulse_count--)\<close> of smb235x_set_hvdcp3_voltage: one
  update of USB_CMD_HVDCP_2_REG per round, left at the first failed update.  The counter
  is an \<open>int\<close>; the loop stops when it reads 0.\<close>

function hvdcp_pulse_loop :: "u32 \<Rightarrow> s32 \<Rightarrow> env \<Rightarrow> int \<times> env" where
  "hvdcp_pulse_loop b n e =
     (if n = 0 then (0, e)
      else case regmap_update_bits e USB_CMD_HVDCP_2_REG b b of
             (rc, e') \<Rightarrow> if rc < 0 then (rc, e') else hvdcp_pulse_loop b (n - 1) e')"
  by pat_completeness auto
termination
  by (relation "measure (\<lambda>(b, n, e). unat n)") (auto simp: unat_minus_one unat_gt_0)

declare hvdcp_pulse_loop.simps [simp del]

definition smb235x_set_hvdcp3_voltage :: "hdr \<Rightarrow> chip \<Rightarrow> env \<Rightarrow> s32 \<Rightarrow> int \<times> chip \<times> env" where
  "smb235x_set_hvdcp3_voltage h c e voltage_uv =
     (if voltage_uv <s BASED_VOLTAGE_UV then (0, c, e)
      else
        let (rc, e') =
          (if based_hvdcp_voltage_uv c <s voltage_uv then
             let hvdcp_pulse_count =
                   c_div (voltage_uv - based_hvdcp_voltage_uv c) QC3_VOLTAGE_STEPS_UV;
                 hvdcp_pulse_count =
                   (if hvdcp_pulse_count_max c <s hvdcp_pulse_count
                    then hvdcp_pulse_count_max c else hvdcp_pulse_count)
             in hvdcp_pulse_loop (SINGLE_INCREMENT_BIT h) hvdcp_pulse_count e
           else
             let hvdcp_pulse_count =
                   c_div (hvdcp3_voltage_uv c - voltage_uv) QC3_VOLTAGE_STEPS_UV
             in hvdcp_pulse_loop (SINGLE_DECREMENT_BIT h) hvdcp_pulse_count e)
        in if rc < 0 then (rc, c, e')
           else (0, c\<lparr>hvdcp3_voltage_uv := voltage_uv,
                      based_hvdcp_voltage_uv := voltage_uv\<rparr>, e'))"

text \<open>The pulses on the bus: the updates of USB_CMD_HVDCP_2_REG that set the bit \<open>b\<close>
  (mask and value both \<open>b\<close>) recorded in the trace, failed ones included.  With
  SINGLE_INCREMENT_BIT these are the increment pulses, with SINGLE_DECREMENT_BIT the
  decrement pulses.\<close>

definition is_pulse :: "u32 \<Rightarrow> bus_op \<Rightarrow> bool" where
  "is_pulse b op =
     (case op of BusUpdate r m v rc \<Rightarrow> r = USB_CMD_HVDCP_2_REG \<and> m = b \<and> v = b
               | _ \<Rightarrow> False)"

definition pulses :: "u32 \<Rightarrow> env \<Rightarrow> nat" where
  "pulses b e = length (filter (is_pulse b) (trace e))"

section \<open>Peers\<close>

text \<open>smb235x_get_prop_from_bms and smb235x_get_prop_from_tcpm: the handle is looked up
  on first use and kept; without a peer the query fails with -EINVAL and \<open>val\<close> is left
  as it was.  A caller whose \<open>pval\<close> is an uninitialised local passes 0 for it; such a
  caller reads the value only after a successful query.\<close>

definition smb235x_get_prop_from_bms :: "chip \<Rightarrow> env \<Rightarrow> psp \<Rightarrow> s32 \<Rightarrow> int \<times> s32 \<times> chip" where
  "smb235x_get_prop_from_bms c e prop val =
     (let c1 = (if bms_psy c = None then c\<lparr>bms_psy := bms_reg e\<rparr> else c)
      in case bms_psy c1 of
           None \<Rightarrow> (- EINVAL, val, c1)
         | Some p \<Rightarrow> (case p prop of (rc, v) \<Rightarrow> (rc, v, c1)))"

definition smb235x_get_prop_from_tcpm :: "chip \<Rightarrow> env \<Rightarrow> psp \<Rightarrow> s32 \<Rightarrow> int \<times> s32 \<times> chip" where
  "smb235x_get_prop_from_tcpm c e prop val =
     (let c1 = (if tcpm_psy c = None then c\<lparr>tcpm_psy := tcpm_reg e\<rparr> else c)
      in case tcpm_psy c1 of
           None \<Rightarrow> (- EINVAL, val, c1)
         | Some p \<Rightarrow> (case p prop of (rc, v) \<Rightarrow> (rc, v, c1)))"

section \<open>Input current limit and APSD\<close>

definition smb235x_set_icl_sw :: "hdr \<Rightarrow> env \<Rightarrow> s32 \<Rightarrow> int \<times> env" where
  "smb235x_set_icl_sw h e icl_ma =
     (let stat = to_u8 (c_div icl_ma CURRENT_STEP_MA) in
      case regmap_update_bits e USBIN_LOAD_CFG_REG
             (ICL_OVERRIDE_AFTER_APSD_BIT h) (ICL_OVERRIDE_AFTER_APSD_BIT h) of
        (rc, e1) \<Rightarrow>
          if rc < 0 then (rc, e1)
          else case regmap_update_bits e1 USB_CMD_ICL_OVERRIDE_REG
                      (ICL_OVERRIDE_BIT h) (ICL_OVERRIDE_BIT h) of
            (rc, e2) \<Rightarrow>
              if rc < 0 then (rc, e2)
              else regmap_write e2 USBIN_CURRENT_LIMIT_CFG_REG (of_u8 stat))"

definition smb235x_rerun_apsd :: "hdr \<Rightarrow> env \<Rightarrow> int \<times> env" where
  "smb235x_rerun_apsd h e =
     regmap_update_bits e USB_CMD_APSD_REG (USB_APSD_RERUN_BIT h) (USB_APSD_RERUN_BIT h)"

definition smb235x_enable_apsd :: "hdr \<Rightarrow> chip \<Rightarrow> env \<Rightarrow> int \<times> chip \<times> env" where
  "smb235x_enable_apsd h c e =
     (let c1 = c\<lparr>hvdcp3_voltage_uv := QC3_DEFAULT_VOLTAGE_UV,
                 based_hvdcp_voltage_uv := BASED_VOLTAGE_UV\<rparr> in
      case regmap_read e USB_HVDCP_PULSE_COUNT_MAX 0 of
        (rc, stat, e1) \<Rightarrow>
          if rc < 0 then (rc, c1, e1)
          else
            let c2 = c1\<lparr>hvdcp_pulse_count_max := stat AND HVDCP_PULSE_COUNT_MAX_QC3P0_BIT h\<rparr> in
            case regmap_update_bits e1 USBIN_OPTIONS_1_CFG_REG
                   (USBIN_HVDCP_AUTH_ALG_EN_BIT h OR USBIN_HVDCP_AUTONOMOUS_MODE_EN_BIT h
                      OR USBIN_APSD_ENABLE_BIT h OR USBIN_HVDCP_EN_BIT h)
                   (USBIN_HVDCP_AUTH_ALG_EN_BIT h
                      OR (if USBIN_HVDCP_AUTONOMOUS_MODE_EN_BIT h = 0 then 1 else 0)
                      OR USBIN_APSD_ENABLE_BIT h OR USBIN_HVDCP_EN_BIT h) of
              (rc, e2) \<Rightarrow>
                if rc < 0 then (rc, c2, e2)
                else case smb235x_rerun_apsd h e2 of (rc, e3) \<Rightarrow> (rc, c2, e3))"

definition smb235x_get_usb_online :: "hdr \<Rightarrow> env \<Rightarrow> bool \<times> env" where
  "smb235x_get_usb_online h e =
     (case regmap_read e DCDC_POWER_PATH_STATUS_REG 0 of
        (rc, stat, e1) \<Rightarrow>
          if rc < 0 then (False, e1)
          else (stat AND USE_USBIN_BIT h \<noteq> 0
                  \<and> stat AND VALID_INPUT_POWER_SOURCE_STS_BIT h \<noteq> 0, e1))"

text \<open>The seven tests of smb235x_get_chg_type on the masked APSD result, in the order of
  the source; each one that matches overwrites both types.\<close>

definition apsd_result_types :: "hdr \<Rightarrow> u32 \<Rightarrow> chip \<Rightarrow> chip" where
  "apsd_result_types h stat c =
     (let c = (if stat AND FLOAT_CHARGER_BIT h \<noteq> 0
               then c\<lparr>charger_type := POWER_SUPPLY_TYPE_USB_FLOAT h,
                      usb_type := POWER_SUPPLY_USB_TYPE_UNKNOWN h\<rparr> else c);
          c = (if stat AND DCP_CHARGER_BIT h \<noteq> 0
               then c\<lparr>charger_type := POWER_SUPPLY_TYPE_USB_DCP h,
                      usb_type := POWER_SUPPLY_USB_TYPE_DCP h\<rparr> else c);
          c = (if stat AND OCP_CHARGER_BIT h \<noteq> 0
               then c\<lparr>charger_type := POWER_SUPPLY_TYPE_USB_DCP h,
                      usb_type := POWER_SUPPLY_USB_TYPE_DCP h\<rparr> else c);
          c = (if stat AND CDP_CHARGER_BIT h \<noteq> 0
               then c\<lparr>charger_type := POWER_SUPPLY_TYPE_USB_CDP h,
                      usb_type := POWER_SUPPLY_USB_TYPE_CDP h\<rparr> else c);
          c = (if stat AND SDP_CHARGER_BIT h \<noteq> 0
               then c\<lparr>charger_type := POWER_SUPPLY_TYPE_USB h,
                      usb_type := POWER_SUPPLY_USB_TYPE_SDP h\<rparr> else c);
          c = (if stat AND QC_3P0_BIT h \<noteq> 0
               then c\<lparr>charger_type := POWER_SUPPLY_TYPE_USB_HVDCP_3 h,
                      usb_type := POWER_SUPPLY_USB_TYPE_DCP h\<rparr> else c);
          c = (if stat AND QC_2P0_BIT h \<noteq> 0
               then c\<lparr>charger_type := POWER_SUPPLY_TYPE_USB_HVDCP h,
                      usb_type := POWER_SUPPLY_USB_TYPE_DCP h\<rparr> else c)
      in c)"

definition smb235x_get_chg_type :: "hdr \<Rightarrow> chip \<Rightarrow> env \<Rightarrow> int \<times> chip \<times> env" where
  "smb235x_get_chg_type h c e =
     (case smb235x_get_usb_online h e of
        (usb_online, e1) \<Rightarrow>
          if \<not> usb_online
          then (0, c\<lparr>charger_type := POWER_SUPPLY_TYPE_UNKNOWN h,
                      usb_type := POWER_SUPPLY_USB_TYPE_UNKNOWN h\<rparr>, e1)
          else case smb235x_get_prop_from_tcpm c e1 POWER_SUPPLY_PROP_USB_TYPE 0 of
            (rc, pval, c1) \<Rightarrow>
              if \<not> rc < 0 \<and> pval \<noteq> POWER_SUPPLY_USB_TYPE_C h
              then (0, c1\<lparr>charger_type := pval, usb_type := pval\<rparr>, e1)
              else case regmap_read e1 USB_APSP_RESULT_STATUS_REG 0 of
                (rc, stat, e2) \<Rightarrow>
                  if rc < 0 then (rc, c1, e2)
                  else (0, apsd_result_types h (stat AND APSD_RESULT_STATUS_MASK h) c1, e2))"

text \<open>The \<open>switch (chip->charger_type)\<close> of smb235x_handle_apsd_done: the per-type limit
  in mA with the side effect of the type.  The first component is False where the
  handler returns from inside the switch.\<close>

definition apsd_type_icl :: "hdr \<Rightarrow> chip \<Rightarrow> env \<Rightarrow> bool \<times> s32 \<times> chip \<times> env" where
  "apsd_type_icl h c e =
     (if charger_type c = POWER_SUPPLY_TYPE_USB h then
        (True, if sdp_icl_ua c \<noteq> 0 then c_div (sdp_icl_ua c) MICRO_TO_MILLI
               else c_div SDP_500_MA MICRO_TO_MILLI, c, e)
      else if charger_type c = POWER_SUPPLY_TYPE_USB_CDP h then
        (True, c_div CDP_CURRENT_UA MICRO_TO_MILLI, c, e)
      else if charger_type c = POWER_SUPPLY_TYPE_USB_DCP h then
        (True, c_div DCP_CURRENT_UA MICRO_TO_MILLI, c, e)
      else if charger_type c = POWER_SUPPLY_TYPE_USB_FLOAT h then
        (True, c_div SDP_500_MA MICRO_TO_MILLI, c, e)
      else if charger_type c = POWER_SUPPLY_TYPE_USB_HVDCP h then
        (case regmap_update_bits e USB_CMD_HVDCP_2_REG (FORCE_9V_BIT h) (FORCE_9V_BIT h) of
           (rc, e1) \<Rightarrow> (\<not> rc < 0, c_div HVDCP_CURRENT_UA MICRO_TO_MILLI, c, e1))
      else if charger_type c = POWER_SUPPLY_TYPE_USB_HVDCP_3 h then
        (case smb235x_set_hvdcp3_voltage h c e (hvdcp3_voltage_uv c) of
           (rc, c1, e1) \<Rightarrow> (True, c_div HVDCP_CURRENT_UA MICRO_TO_MILLI, c1, e1))
      else (True, c_div SDP_500_MA MICRO_TO_MILLI, c, e))"

definition smb235x_handle_apsd_done :: "hdr \<Rightarrow> chip \<Rightarrow> env \<Rightarrow> bool \<Rightarrow> chip \<times> env" where
  "smb235x_handle_apsd_done h c e done =
     (if \<not> done then (c, e)
      else case smb235x_get_chg_type h c e of
        (rc, c1, e1) \<Rightarrow>
          if rc < 0 then (c1, e1)
          else
            let c2 = (if charger_type c1 \<noteq> POWER_SUPPLY_TYPE_USB_HVDCP_3 h
                      then c1\<lparr>based_hvdcp_voltage_uv := BASED_VOLTAGE_UV\<rparr> else c1) in
            case apsd_type_icl h c2 e1 of
              (go_on, icl_ma, c3, e3) \<Rightarrow>
                if \<not> go_on then (c3, e3)
                else if pd_active c3 then
                  (case smb235x_get_prop_from_tcpm c3 e3 POWER_SUPPLY_PROP_CURRENT_MAX 0 of
                     (rc, pval, c4) \<Rightarrow>
                       if rc < 0 then (c4, e3)
                       else case smb235x_set_icl_sw h e3 (c_div pval MICRO_TO_MILLI) of
                              (rc, e4) \<Rightarrow> (c4, e4))
                else case smb235x_set_icl_sw h e3 icl_ma of (rc, e4) \<Rightarrow> (c3, e4))"


section \<open>Charge current and float voltage\<close>

definition smb235x_config_chg_current_voltage :: "chip \<Rightarrow> env \<Rightarrow> int \<times> env" where
  "smb235x_config_chg_current_voltage c e =
     (let reg_val = to_u8 (c_div (c_div (fastchg_curr_ua c) MICRO_TO_MILLI) CURRENT_STEP_MA + 1) in
      case regmap_write e CHGR_FAST_CHARGE_CURRENT_CFG_REG (of_u8 reg_val) of
        (rc, e1) \<Rightarrow>
      if rc < 0 then (rc, e1) else
      let reg_val = to_u8 (c_div (c_div (max_fcc_ua c) MICRO_TO_MILLI) CURRENT_STEP_MA + 1) in
      case regmap_write e1 CHGR_MAX_FAST_CHARGE_CURRENT_CFG_REG (of_u8 reg_val) of
        (rc, e2) \<Rightarrow>
      if rc < 0 then (rc, e2) else
      let reg_val = to_u8 (c_div (c_div (float_volt_uv c) MICRO_TO_MILLI - FLOAT_VOLTAGE_BASE_MV)
                             FLOAT_VOLTAGE_STEP_MV) in
      case regmap_write e2 CHGR_FLOAT_VOLTAGE_CFG_REG (of_u8 reg_val) of
        (rc, e3) \<Rightarrow>
      if rc < 0 then (rc, e3) else
      let reg_val = to_u8 (c_div (c_div (trickle_charge_current_ua c) MICRO_TO_MILLI)
                             CURRENT_STEP_MA) in
      case regmap_write e3 CHGR_TRICKLE_CHARGE_CURRENT_CFG_REG (of_u8 reg_val) of
        (rc, e4) \<Rightarrow>
      if rc < 0 then (rc, e4) else
      let reg_val = to_u8 (c_div (c_div (pre_charge_current_ua c) MICRO_TO_MILLI)
                             CURRENT_STEP_MA) in
      case regmap_write e4 CHGR_PRE_CHARGE_CURRENT_CFG_REG (of_u8 reg_val) of
        (rc, e5) \<Rightarrow>
      if rc < 0 then (rc, e5) else
      let reg_val = to_u8 (c_div (c_div (max_pre_charge_current_ua c) MICRO_TO_MILLI)
                             CURRENT_STEP_MA) in
      case regmap_write e5 CHGR_MAX_PRE_CHARGER_CURRENT_CFG_REG (of_u8 reg_val) of
        (rc, e6) \<Rightarrow> (rc, e6))"

definition smb235x_set_fv :: "env \<Rightarrow> s32 \<Rightarrow> int \<times> env" where
  "smb235x_set_fv e vfloat_uv =
     (let reg_val = to_u8 (c_div (c_div vfloat_uv MICRO_TO_MILLI - FLOAT_VOLTAGE_BASE_MV)
                             FLOAT_VOLTAGE_STEP_MV)
      in regmap_write e CHGR_FLOAT_VOLTAGE_CFG_REG (of_u8 reg_val))"

definition smb235x_set_fcc :: "env \<Rightarrow> s32 \<Rightarrow> int \<times> env" where
  "smb235x_set_fcc e fcc_ua =
     (let reg_val = to_u8 (c_div (c_div fcc_ua MICRO_TO_MILLI) CURRENT_STEP_MA + 1)
      in regmap_write e CHGR_FAST_CHARGE_CURRENT_CFG_REG (of_u8 reg_val))"

definition smb235x_batt_set_prop :: "chip \<Rightarrow> env \<Rightarrow> psp \<Rightarrow> s32 \<Rightarrow> int \<times> chip \<times> env" where
  "smb235x_batt_set_prop c e prop pval =
     (case smb235x_get_prop_from_bms c e prop 0 of
        (rc, bms_val, c1) \<Rightarrow>
          let bms_prop_exist = \<not> rc < 0 in
          if prop = POWER_SUPPLY_PROP_CONSTANT_CHARGE_VOLTAGE_MAX then
            let c2 = c1\<lparr>float_volt_uv := (if bms_prop_exist then bms_val else pval)\<rparr> in
            case smb235x_set_fv e (float_volt_uv c2) of (rc, e1) \<Rightarrow> (rc, c2, e1)
          else if prop = POWER_SUPPLY_PROP_CONSTANT_CHARGE_CURRENT_MAX then
            let c2 = c1\<lparr>fastchg_curr_ua := (if bms_prop_exist then bms_val else pval)\<rparr> in
            case smb235x_set_fcc e (fastchg_curr_ua c2) of (rc, e1) \<Rightarrow> (rc, c2, e1)
          else (- EINVAL, c1, e))"

text \<open>smb235x_update_fv_fcc, the periodic path that pushes the fuel gauge's targets.\<close>

definition smb235x_update_fv_fcc :: "chip \<Rightarrow> env \<Rightarrow> chip \<times> env" where
  "smb235x_update_fv_fcc c e =
     (case smb235x_get_prop_from_bms c e POWER_SUPPLY_PROP_CONSTANT_CHARGE_CURRENT_MAX 0 of
        (rc, pval, c1) \<Rightarrow>
      if rc < 0 then (c1, e) else
      case (if fastchg_curr_ua c1 \<noteq> pval
            then case smb235x_set_fcc e pval of
                   (rc, e1) \<Rightarrow> if rc < 0 then (False, c1, e1)
                               else (True, c1\<lparr>fastchg_curr_ua := pval\<rparr>, e1)
            else (True, c1, e)) of
        (go_on, c2, e2) \<Rightarrow>
      if \<not> go_on then (c2, e2) else
      case smb235x_get_prop_from_bms c2 e2 POWER_SUPPLY_PROP_CONSTANT_CHARGE_VOLTAGE_MAX pval of
        (rc, pval, c3) \<Rightarrow>
      if rc < 0 then (c3, e2) else
      if float_volt_uv c3 \<noteq> pval
      then case smb235x_set_fv e2 pval of
             (rc, e3) \<Rightarrow> if rc < 0 then (c3, e3) else (c3\<lparr>float_volt_uv := pval\<rparr>, e3)
      else (c3, e2))"

section \<open>State of charge\<close>

text \<open>
  Modelled from the spec: DIV_ROUND_CLOSEST of linux/kernel.h, which is not part of the
  sources at hand; the spec has the state of charge rescaled "rounding to nearest".
  On two \<open>int\<close> operands the macro adds half the divisor when the operands have the same
  sign and subtracts it otherwise, then divides as C does.
\<close>

definition DIV_ROUND_CLOSEST :: "s32 \<Rightarrow> s32 \<Rightarrow> s32" where
  "DIV_ROUND_CLOSEST x d =
     (if (0 <s x) = (0 <s d) then c_div (x + c_div d 2) d else c_div (x - c_div d 2) d)"

definition smb235x_update_soc :: "hdr \<Rightarrow> chip \<Rightarrow> env \<Rightarrow> chip \<times> env" where
  "smb235x_update_soc h c e =
     (case smb235x_get_prop_from_bms c e POWER_SUPPLY_PROP_CAPACITY 0 of
        (rc, pval, c1) \<Rightarrow>
          if rc < 0 then (c1, e)
          else
            let soc = to_u8 (DIV_ROUND_CLOSEST (pval * 255) 100) in
            case regmap_write e CHGR_STEP_CHG_SOC_VBATT_V_REG (of_u8 soc) of
              (rc, e1) \<Rightarrow>
                if rc < 0 then (c1, e1)
                else case regmap_update_bits e1 CHGR_STEP_CHG_SOC_VBATT_V_UPDATE_REG
                            (CHGR_STEP_SOC_VBATT_V_UPDATE_BIT h)
                            (CHGR_STEP_SOC_VBATT_V_UPDATE_BIT h) of
                       (rc, e2) \<Rightarrow> (c1, e2))"

section \<open>Property getters\<close>

definition smb235x_get_prop_battery_status :: "hdr \<Rightarrow> env \<Rightarrow> s32 \<Rightarrow> int \<times> s32 \<times> env" where
  "smb235x_get_prop_battery_status h e pval =
     (case smb235x_get_usb_online h e of
        (usb_online, e1) \<Rightarrow>
      case regmap_read e1 BATTERY_CHARGER_STATUS_1_REG 0 of
        (rc, stat, e2) \<Rightarrow>
      if rc < 0 then (rc, pval, e2) else
      let stat = stat AND BATTERY_CHARGER_STATUS_MASK h in
      if \<not> usb_online then
        (if stat = TERMINATE_CHARGE h \<or> stat = INHIBIT_CHARGE h
         then (rc, POWER_SUPPLY_STATUS_FULL h, e2)
         else (rc, POWER_SUPPLY_STATUS_DISCHARGING h, e2))
      else if stat = TRICKLE_CHARGE h \<or> stat = PRE_CHARGE h
              \<or> stat = FULLON_CHARGE h \<or> stat = TAPER_CHARGE h
        then (rc, POWER_SUPPLY_STATUS_CHARGING h, e2)
      else if stat = TERMINATE_CHARGE h
        then (rc, POWER_SUPPLY_STATUS_FULL h, e2)
      else if stat = INHIBIT_CHARGE h \<or> stat = PAUSE_CHARGE h \<or> stat = DISABLE_CHARGE h
        then (rc, POWER_SUPPLY_STATUS_NOT_CHARGING h, e2)
      else (rc, POWER_SUPPLY_STATUS_UNKNOWN h, e2))"

definition smb235x_get_prop_usb_present :: "hdr \<Rightarrow> env \<Rightarrow> s32 \<Rightarrow> int \<times> s32 \<times> env" where
  "smb235x_get_prop_usb_present h e val =
     (case regmap_read e USB_INT_RT_STS_OFFSET_REG 0 of
        (rc, stat, e1) \<Rightarrow>
          if rc < 0 then (rc, val, e1)
          else (0, if stat AND USBIN_PLUGIN_RT_STS_BIT h \<noteq> 0 then 1 else 0, e1))"

definition smb235x_get_prop_usb_icl :: "hdr \<Rightarrow> env \<Rightarrow> s32 \<Rightarrow> int \<times> s32 \<times> env" where
  "smb235x_get_prop_usb_icl h e val =
     (case smb235x_get_usb_online h e of
        (usb_online, e1) \<Rightarrow>
      if \<not> usb_online then (0, 0, e1) else
      case regmap_read e1 USB_CMD_ICL_OVERRIDE_REG 0 of
        (rc, override_stat, e2) \<Rightarrow>
      if rc < 0 then (rc, val, e2) else
      let override_stat = override_stat AND ICL_OVERRIDE_BIT h in
      case (if override_stat = 1
            then regmap_read e2 USBIN_CURRENT_LIMIT_CFG_REG 0
            else regmap_read e2 DCDC_ICL_MAX_STATUS_REG 0) of
        (rc, stat, e3) \<Rightarrow>
      if rc < 0 then (rc, val, e3)
      else (rc, stat * CURRENT_STEP_MA * MICRO_TO_MILLI, e3))"

definition smb235x_get_hvdcp2_voltage :: "hdr \<Rightarrow> env \<Rightarrow> s32 \<times> env" where
  "smb235x_get_hvdcp2_voltage h e =
     (case regmap_read e USB_QC_CHANGE_STATUS_REG 0 of
        (rc, stat, e1) \<Rightarrow>
          if rc < 0 then (word_of_int rc, e1)
          else if stat AND QC_12V_BIT h \<noteq> 0 then (VOLTAGE_FORCE_12V_UV, e1)
          else if stat AND QC_9V_BIT h \<noteq> 0 then (VOLTAGE_FORCE_9V_UV, e1)
          else if stat AND QC_5V_BTI h \<noteq> 0 then (VOLTAGE_FORCE_5V_UV, e1)
          else (VOLTAGE_FORCE_5V_UV, e1))"

definition smb235x_get_prop_usb_voltage ::
  "hdr \<Rightarrow> chip \<Rightarrow> env \<Rightarrow> s32 \<Rightarrow> int \<times> s32 \<times> chip \<times> env" where
  "smb235x_get_prop_usb_voltage h c e val =
     (case smb235x_get_usb_online h e of
        (usb_online, e1) \<Rightarrow>
      if \<not> usb_online then (0, 0, c, e1) else
      case (if charger_type c = POWER_SUPPLY_TYPE_USB_FLOAT h
               \<or> charger_type c = POWER_SUPPLY_TYPE_USB_DCP h
               \<or> charger_type c = POWER_SUPPLY_TYPE_USB_CDP h
               \<or> charger_type c = POWER_SUPPLY_TYPE_USB h
            then (VOLTAGE_FORCE_5V_UV, e1)
            else if charger_type c = POWER_SUPPLY_TYPE_USB_HVDCP_3 h
            then (hvdcp3_voltage_uv c, e1)
            else if charger_type c = POWER_SUPPLY_TYPE_USB_HVDCP h
            then smb235x_get_hvdcp2_voltage h e1
            else (VOLTAGE_FORCE_5V_UV, e1)) of
        (val, e2) \<Rightarrow>
      if pd_active c
      then case smb235x_get_prop_from_tcpm c e2 POWER_SUPPLY_PROP_VOLTAGE_NOW val of
             (rc, val, c1) \<Rightarrow> (rc, val, c1, e2)
      else (0, val, c, e2))"

definition smb235x_usb_get_prop ::
  "hdr \<Rightarrow> chip \<Rightarrow> env \<Rightarrow> psp \<Rightarrow> s32 \<Rightarrow> int \<times> s32 \<times> chip \<times> env" where
  "smb235x_usb_get_prop h c e prop pval =
     (case
        (case prop of
           POWER_SUPPLY_PROP_PRESENT \<Rightarrow>
             (case smb235x_get_prop_usb_present h e pval of
                (rc, v, e1) \<Rightarrow> (False, rc, v, c, e1))
         | POWER_SUPPLY_PROP_ONLINE \<Rightarrow>
             (case smb235x_get_usb_online h e of
                (b, e1) \<Rightarrow> (False, 0, if b then 1 else 0, c, e1))
         | POWER_SUPPLY_PROP_CURRENT_MAX \<Rightarrow>
             (case smb235x_get_prop_usb_icl h e pval of
                (rc, v, e1) \<Rightarrow> (False, rc, v, c, e1))
         | POWER_SUPPLY_PROP_VOLTAGE_MAX \<Rightarrow>
             (case smb235x_get_prop_usb_voltage h c e pval of
                (rc, v, c1, e1) \<Rightarrow> (False, rc, v, c1, e1))
         | POWER_SUPPLY_PROP_VOLTAGE_NOW \<Rightarrow>
             (case smb235x_get_prop_usb_voltage h c e pval of
                (rc, v, c1, e1) \<Rightarrow> (False, rc, v, c1, e1))
         | POWER_SUPPLY_PROP_CURRENT_NOW \<Rightarrow>
             (case smb235x_get_usb_online h e of
                (usb_online, e1) \<Rightarrow>
                  if \<not> usb_online then (True, 0, 0, c, e1)
                  else case smb235x_get_prop_from_tcpm c e1 prop pval of
                         (rc, v, c1) \<Rightarrow> (False, rc, v, c1, e1))
         | POWER_SUPPLY_PROP_SDP_CURRENT_MAX \<Rightarrow>
             (False, 0, if sdp_icl_ua c \<noteq> 0 then sdp_icl_ua c else SDP_500_MA, c, e)
         | POWER_SUPPLY_PROP_REAL_TYPE \<Rightarrow>
             (case smb235x_get_chg_type h c e of
                (rc, c1, e1) \<Rightarrow>
                  (False, rc, if rc = 0 then charger_type c1 else POWER_SUPPLY_TYPE_UNKNOWN h,
                   c1, e1))
         | POWER_SUPPLY_PROP_USB_TYPE \<Rightarrow>
             (case smb235x_get_chg_type h c e of
                (rc, c1, e1) \<Rightarrow>
                  (False, rc, if rc = 0 then usb_type c1 else POWER_SUPPLY_TYPE_UNKNOWN h,
                   c1, e1))
         | _ \<Rightarrow> (True, - EINVAL, pval, c, e)) of
        (returned, rc, v, c1, e1) \<Rightarrow>
          if returned then (rc, v, c1, e1)
          else if rc < 0 then (- ENODATA, v, c1, e1)
          else (rc, v, c1, e1))"

section \<open>The detection order in the specification's words\<close>

text \<open>
  The specification of autonomous detection: the status bits in the fixed order Float,
  DCP, over-current DCP, CDP, SDP, QC3.0, QC2.0, each with the charger type and USB type
  it maps to; the result is the mapping of the last bit of that order that is set.
\<close>

definition spec_apsd_order :: "hdr \<Rightarrow> (u32 \<times> s32 \<times> s32) list" where
  "spec_apsd_order h =
     [(FLOAT_CHARGER_BIT h, POWER_SUPPLY_TYPE_USB_FLOAT h, POWER_SUPPLY_USB_TYPE_UNKNOWN h),
      (DCP_CHARGER_BIT h, POWER_SUPPLY_TYPE_USB_DCP h, POWER_SUPPLY_USB_TYPE_DCP h),
      (OCP_CHARGER_BIT h, POWER_SUPPLY_TYPE_USB_DCP h, POWER_SUPPLY_USB_TYPE_DCP h),
      (CDP_CHARGER_BIT h, POWER_SUPPLY_TYPE_USB_CDP h, POWER_SUPPLY_USB_TYPE_CDP h),
      (SDP_CHARGER_BIT h, POWER_SUPPLY_TYPE_USB h, POWER_SUPPLY_USB_TYPE_SDP h),
      (QC_3P0_BIT h, POWER_SUPPLY_TYPE_USB_HVDCP_3 h, POWER_SUPPLY_USB_TYPE_DCP h),
      (QC_2P0_BIT h, POWER_SUPPLY_TYPE_USB_HVDCP h, POWER_SUPPLY_USB_TYPE_DCP h)]"

definition spec_apsd_matches :: "hdr \<Rightarrow> u32 \<Rightarrow> (u32 \<times> s32 \<times> s32) list" where
  "spec_apsd_matches h stat = filter (\<lambda>(b, t, u). stat AND b \<noteq> 0) (spec_apsd_order h)"

section \<open>Concrete runs\<close>

text \<open>
  An instance of the header constants for evaluating concrete runs: single bits and
  consecutive enumerators, the seven APSD result bits inside their mask.  The general
  theorems below hold for every \<open>h\<close>; this instance only names one.
\<close>

definition smb235x_hdr :: hdr where
  "smb235x_hdr = \<lparr>
     ICL_OVERRIDE_AFTER_APSD_BIT = 16, ICL_OVERRIDE_BIT = 1, USB_APSD_RERUN_BIT = 1,
     HVDCP_PULSE_COUNT_MAX_QC3P0_BIT = 63, USBIN_HVDCP_AUTH_ALG_EN_BIT = 64,
     USBIN_HVDCP_AUTONOMOUS_MODE_EN_BIT = 8, USBIN_APSD_ENABLE_BIT = 4,
     USBIN_HVDCP_EN_BIT = 2, USE_USBIN_BIT = 16, VALID_INPUT_POWER_SOURCE_STS_BIT = 1,
     APSD_RESULT_STATUS_MASK = 127, FLOAT_CHARGER_BIT = 16, DCP_CHARGER_BIT = 8,
     OCP_CHARGER_BIT = 2, CDP_CHARGER_BIT = 4, SDP_CHARGER_BIT = 1, QC_3P0_BIT = 64,
     QC_2P0_BIT = 32, SINGLE_INCREMENT_BIT = 1, SINGLE_DECREMENT_BIT = 2,
     FORCE_9V_BIT = 64, QC_12V_BIT = 4, QC_9V_BIT = 2, QC_5V_BTI = 1,
     BATTERY_CHARGER_STATUS_MASK = 7, TRICKLE_CHARGE = 0, PRE_CHARGE = 1,
     FULLON_CHARGE = 2, TAPER_CHARGE = 3, TERMINATE_CHARGE = 4, INHIBIT_CHARGE = 5,
     PAUSE_CHARGE = 6, DISABLE_CHARGE = 7, CHGR_STEP_SOC_VBATT_V_UPDATE_BIT = 1,
     USBIN_PLUGIN_RT_STS_BIT = 16,
     POWER_SUPPLY_TYPE_UNKNOWN = 0, POWER_SUPPLY_TYPE_USB = 4,
     POWER_SUPPLY_TYPE_USB_DCP = 5, POWER_SUPPLY_TYPE_USB_CDP = 6,
     POWER_SUPPLY_TYPE_USB_HVDCP = 12, POWER_SUPPLY_TYPE_USB_HVDCP_3 = 13,
     POWER_SUPPLY_TYPE_USB_FLOAT = 16,
     POWER_SUPPLY_USB_TYPE_UNKNOWN = 0, POWER_SUPPLY_USB_TYPE_SDP = 1,
     POWER_SUPPLY_USB_TYPE_DCP = 2, POWER_SUPPLY_USB_TYPE_CDP = 3,
     POWER_SUPPLY_USB_TYPE_C = 5,
     POWER_SUPPLY_STATUS_UNKNOWN = 0, POWER_SUPPLY_STATUS_CHARGING = 1,
     POWER_SUPPLY_STATUS_DISCHARGING = 2, POWER_SUPPLY_STATUS_NOT_CHARGING = 3,
     POWER_SUPPLY_STATUS_FULL = 4 \<rparr>"

text \<open>The chip as smb235x_probe allocates it (devm_kzalloc: every field zero), and a
  bus with all registers zero, no failure scheduled and no peer registered.\<close>

definition chip_kzalloc :: chip where
  "chip_kzalloc = \<lparr>
     bms_psy = None, tcpm_psy = None, trickle_charge_current_ua = 0,
     max_pre_charge_current_ua = 0, pre_charge_current_ua = 0, float_volt_uv = 0,
     fastchg_curr_ua = 0, max_fcc_ua = 0, sdp_icl_ua = 0, charger_type = 0, usb_type = 0,
     hvdcp_pulse_count_max = 0, hvdcp3_voltage_uv = 0, based_hvdcp_voltage_uv = 0,
     pd_active = False \<rparr>"

definition env_idle :: env where
  "env_idle = \<lparr> regs = (\<lambda>r. 0), rcs = [], trace = [], bms_reg = None, tcpm_reg = None \<rparr>"


text \<open>A port with a QC3.0 charger attached: the power path reports a valid USB input,
  the APSD result has the QC3.0 bit alone, and USB_HVDCP_PULSE_COUNT_MAX reads 10.\<close>

definition env_qc3_attached :: env where
  "env_qc3_attached =
     env_idle\<lparr>regs := (\<lambda>r. 0)(DCDC_POWER_PATH_STATUS_REG := 17,
                                    USB_APSP_RESULT_STATUS_REG := 64,
                                    USB_HVDCP_PULSE_COUNT_MAX := 10)\<rparr>"

text \<open>A port with a DCP attached: the power path reports a valid USB input and the APSD
  result has the DCP bit alone.  \<open>chip_hvdcp3_at_6v\<close> is the chip after an HVDCP3
  session that was stepped to 6.0 V.\<close>

definition env_dcp_attached :: env where
  "env_dcp_attached =
     env_idle\<lparr>regs := (\<lambda>r. 0)(DCDC_POWER_PATH_STATUS_REG := 17,
                                    USB_APSP_RESULT_STATUS_REG := 8)\<rparr>"

definition chip_hvdcp3_at_6v :: chip where
  "chip_hvdcp3_at_6v =
     chip_kzalloc\<lparr>charger_type := 13, usb_type := 2, hvdcp_pulse_count_max := 10,
                   hvdcp3_voltage_uv := 6000000, based_hvdcp_voltage_uv := 6000000\<rparr>"

text \<open>A negotiation peer that still reports the plain Type-C type and a maximum
  current of 900000 uA, with \<open>pd_active\<close> left set by an earlier notification.\<close>

definition tcpm_900ma :: psy where
  "tcpm_900ma prop =
     (if prop = POWER_SUPPLY_PROP_USB_TYPE then (0, 5)
      else if prop = POWER_SUPPLY_PROP_CURRENT_MAX then (0, 900000)
      else (- 22, 0))"

definition env_dcp_with_tcpm :: env where
  "env_dcp_with_tcpm = env_dcp_attached\<lparr>tcpm_reg := Some tcpm_900ma\<rparr>"

definition chip_pd_active :: chip where
  "chip_pd_active = chip_kzalloc\<lparr>pd_active := True\<rparr>"

text \<open>A port whose APSD result has both the Float and the DCP bit.\<close>

definition env_float_dcp :: env where
  "env_float_dcp =
     env_idle\<lparr>regs := (\<lambda>r. 0)(DCDC_POWER_PATH_STATUS_REG := 17,
                                    USB_APSP_RESULT_STATUS_REG := 24)\<rparr>"

text \<open>A bus whose next transaction fails with -EIO.\<close>

definition env_bus_fault :: env where
  "env_bus_fault = env_idle\<lparr>rcs := [- 5]\<rparr>"

text \<open>An unplugged port whose charger status reads INHIBIT_CHARGE.\<close>

definition env_unplugged_inhibit :: env where
  "env_unplugged_inhibit = env_idle\<lparr>regs := (\<lambda>r. 0)(BATTERY_CHARGER_STATUS_1_REG := 5)\<rparr>"

text \<open>The chip with the defaults smb235x_parse_dt assigns before it reads the device
  tree, and a fuel gauge that reports targets and a capacity.\<close>

definition chip_parse_dt :: chip where
  "chip_parse_dt =
     chip_kzalloc\<lparr>trickle_charge_current_ua := 50000, pre_charge_current_ua := 750000,
                   max_pre_charge_current_ua := 1000000, fastchg_curr_ua := 3250000,
                   max_fcc_ua := 3250000, float_volt_uv := 8800000\<rparr>"

definition bms_targets :: "s32 \<Rightarrow> psy" where
  "bms_targets capacity prop =
     (if prop = POWER_SUPPLY_PROP_CONSTANT_CHARGE_CURRENT_MAX then (0, 3000000)
      else if prop = POWER_SUPPLY_PROP_CONSTANT_CHARGE_VOLTAGE_MAX then (0, 8400000)
      else if prop = POWER_SUPPLY_PROP_CAPACITY then (0, capacity)
      else (- 22, 0))"

definition env_bms :: "s32 \<Rightarrow> env" where
  "env_bms capacity = env_idle\<lparr>bms_reg := Some (bms_targets capacity)\<rparr>"

section \<open>C arithmetic and the pulse loop\<close>


lemma pulses_update:
  "regmap_update_bits e USB_CMD_HVDCP_2_REG b b = (rc, e') \<Longrightarrow> pulses b e' = pulses b e + 1"
  by (auto simp: regmap_update_bits_def pulses_def is_pulse_def Let_def split: if_splits)

lemma update_rcs:
  "regmap_update_bits e r b v = (rc, e') \<Longrightarrow> rcs e' = tl (rcs e) \<and> rc = next_rc e"
  by (auto simp: regmap_update_bits_def Let_def split: if_splits)

lemma pulse_loop_bound:
  "hvdcp_pulse_loop b n e = (rc, e') \<Longrightarrow> pulses b e' \<le> pulses b e + unat n"
proof (induction b n e rule: hvdcp_pulse_loop.induct)
  case (1 b n e)
  show ?case
  proof (cases "n = 0")
    case True
    with "1.prems" show ?thesis by (simp add: hvdcp_pulse_loop.simps)
  next
    case False
    obtain r1 e1 where u: "regmap_update_bits e USB_CMD_HVDCP_2_REG b b = (r1, e1)"
      by (cases "regmap_update_bits e USB_CMD_HVDCP_2_REG b b")
    have p: "pulses b e1 = pulses b e + 1" using pulses_update [OF u] by simp
    have n: "unat (n - 1) + 1 = unat n" using False by (simp add: unat_minus_one unat_gt_0)
    show ?thesis
    proof (cases "r1 < 0")
      case True
      with False u "1.prems" have "e' = e1" by (simp add: hvdcp_pulse_loop.simps [of b n e])
      with p n show ?thesis by simp
    next
      case nf: False
      with False u "1.prems" have "hvdcp_pulse_loop b (n - 1) e1 = (rc, e')"
        by (simp add: hvdcp_pulse_loop.simps [of b n e])
      from "1.IH" [OF False u [symmetric] nf this] p n show ?thesis by simp
    qed
  qed
qed

lemma pulse_loop_exact:
  "rcs e = [] \<Longrightarrow> hvdcp_pulse_loop b n e = (rc, e') \<Longrightarrow>
   pulses b e' = pulses b e + unat n \<and> rc = 0 \<and> rcs e' = []"
proof (induction b n e rule: hvdcp_pulse_loop.induct)
  case (1 b n e)
  show ?case
  proof (cases "n = 0")
    case True
    with "1.prems" show ?thesis by (simp add: hvdcp_pulse_loop.simps)
  next
    case False
    obtain r1 e1 where u: "regmap_update_bits e USB_CMD_HVDCP_2_REG b b = (r1, e1)"
      by (cases "regmap_update_bits e USB_CMD_HVDCP_2_REG b b")
    have p: "pulses b e1 = pulses b e + 1" using pulses_update [OF u] by simp
    have r: "rcs e1 = []" "r1 = 0" using update_rcs [OF u] "1.prems"(1) by (simp_all add: next_rc_def)
    have n: "unat (n - 1) + 1 = unat n" using False by (simp add: unat_minus_one unat_gt_0)
    have nf: "\<not> r1 < 0" using r by simp
    with False u "1.prems" have "hvdcp_pulse_loop b (n - 1) e1 = (rc, e')"
      by (simp add: hvdcp_pulse_loop.simps [of b n e])
    from "1.IH" [OF False u [symmetric] nf r(1) this] p n show ?thesis by simp
  qed
qed


lemma sint_sub_exact:
  fixes a b :: "32 word"
  assumes "- (2 ^ 31) \<le> sint a - sint b" "sint a - sint b < 2 ^ 31"
  shows "sint (a - b) = sint a - sint b"
  using assms by (simp add: sint_word_ariths signed_take_bit_int_eq_self)

lemma sint_of_int_exact:
  assumes "- (2 ^ 31) \<le> k" "k < 2 ^ 31"
  shows "sint (word_of_int k :: 32 word) = k"
  using assms by (simp add: sint_sbintrunc' signed_take_bit_int_eq_self)

lemma unat_of_nonneg:
  fixes w :: "32 word"
  assumes "0 \<le> sint w"
  shows "unat w = nat (sint w)"
proof -
  have "uint w = take_bit 32 (sint w)" by (simp add: uint_sint)
  also have "\<dots> = sint w"
    using assms sint_lt [of w] by (simp add: take_bit_int_eq_self)
  finally show ?thesis by (simp add: unat_eq_nat_uint)
qed


lemma c_div_nonneg:
  assumes "0 \<le> sint a" "0 < sint b"
  shows "sint (c_div a b) = sint a div sint b"
proof -
  have q: "sint a sdiv sint b = sint a div sint b"
    using assms by (simp add: signed_divide_int_def sgn_if)
  have "sint a < 2 ^ 31" using sint_lt [of a] by simp
  moreover have "sint a div sint b \<le> sint a"
    using assms by (cases "sint a = 0") (simp_all add: int_div_le_self)
  moreover have "0 \<le> sint a div sint b" using assms by (simp add: pos_imp_zdiv_nonneg_iff)
  ultimately show ?thesis
    unfolding c_div_def q by (intro sint_of_int_exact) simp_all
qed

text \<open>
  The step-up branch of smb235x_set_hvdcp3_voltage clamps: for a target of at least
  5.0 V above a non-negative base, with a non-negative hvdcp_pulse_count_max, a call puts
  at most hvdcp_pulse_count_max increment pulses on the bus.
\<close>

lemma hvdcp3_step_up_clamped:
  assumes v: "BASED_VOLTAGE_UV \<le>s v"
    and run: "smb235x_set_hvdcp3_voltage h c e v = (rc, c', e')"
    and up: "based_hvdcp_voltage_uv c <s v"
    and b0: "0 \<le>s based_hvdcp_voltage_uv c"
    and m0: "0 \<le>s hvdcp_pulse_count_max c"
  shows "int (pulses (SINGLE_INCREMENT_BIT h) e')
           \<le> int (pulses (SINGLE_INCREMENT_BIT h) e) + sint (hvdcp_pulse_count_max c)"
proof -
  have nlt: "\<not> v <s BASED_VOLTAGE_UV" using v by (simp add: word_sle_eq word_sless_alt)
  have vub: "sint v < 2 ^ 31" using sint_lt [of v] by simp
  define q where "q = c_div (v - based_hvdcp_voltage_uv c) QC3_VOLTAGE_STEPS_UV"
  define n where "n = (if hvdcp_pulse_count_max c <s q then hvdcp_pulse_count_max c else q)"
  have b: "0 \<le> sint (based_hvdcp_voltage_uv c)" "sint (based_hvdcp_voltage_uv c) < sint v"
    "0 \<le> sint (hvdcp_pulse_count_max c)"
    using up b0 m0 by (simp_all add: word_sle_eq word_sless_alt)
  have d: "sint (v - based_hvdcp_voltage_uv c) = sint v - sint (based_hvdcp_voltage_uv c)"
    using b vub by (intro sint_sub_exact) simp_all
  have q0: "0 \<le> sint q"
    unfolding q_def using b d
    by (simp add: c_div_nonneg QC3_VOLTAGE_STEPS_UV_def pos_imp_zdiv_nonneg_iff)
  have n0: "0 \<le> sint n" "sint n \<le> sint (hvdcp_pulse_count_max c)"
    using q0 b by (auto simp: n_def word_sless_alt)
  obtain r1 e1 where l: "hvdcp_pulse_loop (SINGLE_INCREMENT_BIT h) n e = (r1, e1)"
    by (cases "hvdcp_pulse_loop (SINGLE_INCREMENT_BIT h) n e")
  have "e' = e1"
    using run nlt up l
    by (auto simp: smb235x_set_hvdcp3_voltage_def Let_def q_def n_def split: if_splits)
  with pulse_loop_bound [OF l]
  have "pulses (SINGLE_INCREMENT_BIT h) e' \<le> pulses (SINGLE_INCREMENT_BIT h) e + unat n"
    by simp
  with n0 show ?thesis by (simp add: unat_of_nonneg)
qed

text \<open>
  The step-down branch does not: for a target of at least 5.0 V that is not above the
  base and not above the stored voltage, a call on a bus without failures puts
  (hvdcp3_voltage_uv - target) / 200000 decrement pulses on the bus, whatever
  hvdcp_pulse_count_max is.
\<close>

lemma hvdcp3_step_down_count:
  assumes v: "BASED_VOLTAGE_UV \<le>s v"
    and run: "smb235x_set_hvdcp3_voltage h c e v = (rc, c', e')"
    and down: "\<not> based_hvdcp_voltage_uv c <s v"
    and le: "v \<le>s hvdcp3_voltage_uv c"
    and idle: "rcs e = []"
  shows "int (pulses (SINGLE_DECREMENT_BIT h) e')
           = int (pulses (SINGLE_DECREMENT_BIT h) e)
             + (sint (hvdcp3_voltage_uv c) - sint v) div 200000"
proof -
  have v5: "5000000 \<le> sint v" using v by (simp add: word_sle_eq BASED_VOLTAGE_UV_def)
  have nlt: "\<not> v <s BASED_VOLTAGE_UV" using v by (simp add: word_sle_eq word_sless_alt)
  define n where "n = c_div (hvdcp3_voltage_uv c - v) QC3_VOLTAGE_STEPS_UV"
  have b: "sint v \<le> sint (hvdcp3_voltage_uv c)" using le by (simp add: word_sle_eq)
  have hub: "sint (hvdcp3_voltage_uv c) < 2 ^ 31" using sint_lt [of "hvdcp3_voltage_uv c"] by simp
  have d: "sint (hvdcp3_voltage_uv c - v) = sint (hvdcp3_voltage_uv c) - sint v"
    using b v5 hub by (intro sint_sub_exact) simp_all
  have n0: "sint n = (sint (hvdcp3_voltage_uv c) - sint v) div 200000"
    unfolding n_def using b d by (simp add: c_div_nonneg QC3_VOLTAGE_STEPS_UV_def)
  have n1: "0 \<le> sint n" unfolding n0 using b by (simp add: pos_imp_zdiv_nonneg_iff)
  obtain r1 e1 where l: "hvdcp_pulse_loop (SINGLE_DECREMENT_BIT h) n e = (r1, e1)"
    by (cases "hvdcp_pulse_loop (SINGLE_DECREMENT_BIT h) n e")
  have e1: "e' = e1"
    using run nlt down l
    by (auto simp: smb235x_set_hvdcp3_voltage_def Let_def n_def split: if_splits)
  from pulse_loop_exact [OF idle l] e1
  have "pulses (SINGLE_DECREMENT_BIT h) e' = pulses (SINGLE_DECREMENT_BIT h) e + unat n"
    by simp
  with n0 n1 show ?thesis by (simp add: unat_of_nonneg)
qed

text \<open>
  C1 at a run of the driver.  smb235x_enable_apsd reads a pulse count maximum of 10;
  the APSD-done handler finds a QC3.0 charger and steps up towards the 9.0 V default:
  the twenty pulses asked for are clamped, ten increment pulses go out, and 9.0 V is
  stored as voltage and base.  A request for 5.0 V then succeeds with twenty decrement
  pulses, twice hvdcp_pulse_count_max, and no further increment pulse.
\<close>

theorem hvdcp3_step_down_exceeds_max:
  "fst (smb235x_enable_apsd smb235x_hdr chip_kzalloc env_qc3_attached) = 0
   \<and> sint (hvdcp_pulse_count_max
             (fst (smb235x_handle_apsd_done smb235x_hdr
                     (fst (snd (smb235x_enable_apsd smb235x_hdr chip_kzalloc env_qc3_attached)))
                     (snd (snd (smb235x_enable_apsd smb235x_hdr chip_kzalloc env_qc3_attached)))
                     True))) = 10
   \<and> charger_type
         (fst (smb235x_handle_apsd_done smb235x_hdr
                 (fst (snd (smb235x_enable_apsd smb235x_hdr chip_kzalloc env_qc3_attached)))
                 (snd (snd (smb235x_enable_apsd smb235x_hdr chip_kzalloc env_qc3_attached)))
                 True)) = POWER_SUPPLY_TYPE_USB_HVDCP_3 smb235x_hdr
   \<and> hvdcp3_voltage_uv
         (fst (smb235x_handle_apsd_done smb235x_hdr
                 (fst (snd (smb235x_enable_apsd smb235x_hdr chip_kzalloc env_qc3_attached)))
                 (snd (snd (smb235x_enable_apsd smb235x_hdr chip_kzalloc env_qc3_attached)))
                 True)) = 9000000
   \<and> based_hvdcp_voltage_uv
         (fst (smb235x_handle_apsd_done smb235x_hdr
                 (fst (snd (smb235x_enable_apsd smb235x_hdr chip_kzalloc env_qc3_attached)))
                 (snd (snd (smb235x_enable_apsd smb235x_hdr chip_kzalloc env_qc3_attached)))
                 True)) = 9000000
   \<and> pulses (SINGLE_INCREMENT_BIT smb235x_hdr)
         (snd (smb235x_handle_apsd_done smb235x_hdr
                 (fst (snd (smb235x_enable_apsd smb235x_hdr chip_kzalloc env_qc3_attached)))
                 (snd (snd (smb235x_enable_apsd smb235x_hdr chip_kzalloc env_qc3_attached)))
                 True)) = 10
   \<and> pulses (SINGLE_DECREMENT_BIT smb235x_hdr)
         (snd (smb235x_handle_apsd_done smb235x_hdr
                 (fst (snd (smb235x_enable_apsd smb235x_hdr chip_kzalloc env_qc3_attached)))
                 (snd (snd (smb235x_enable_apsd smb235x_hdr chip_kzalloc env_qc3_attached)))
                 True)) = 0
   \<and> BASED_VOLTAGE_UV \<le>s 5000000
   \<and> fst (case smb235x_handle_apsd_done smb235x_hdr
                  (fst (snd (smb235x_enable_apsd smb235x_hdr chip_kzalloc env_qc3_attached)))
                  (snd (snd (smb235x_enable_apsd smb235x_hdr chip_kzalloc env_qc3_attached)))
                  True of
            (c, e) \<Rightarrow> smb235x_set_hvdcp3_voltage smb235x_hdr c e 5000000) = 0
   \<and> pulses (SINGLE_DECREMENT_BIT smb235x_hdr)
         (snd (snd (case smb235x_handle_apsd_done smb235x_hdr
                  (fst (snd (smb235x_enable_apsd smb235x_hdr chip_kzalloc env_qc3_attached)))
                  (snd (snd (smb235x_enable_apsd smb235x_hdr chip_kzalloc env_qc3_attached)))
                  True of
            (c, e) \<Rightarrow> smb235x_set_hvdcp3_voltage smb235x_hdr c e 5000000))) = 20
   \<and> pulses (SINGLE_INCREMENT_BIT smb235x_hdr)
         (snd (snd (case smb235x_handle_apsd_done smb235x_hdr
                  (fst (snd (smb235x_enable_apsd smb235x_hdr chip_kzalloc env_qc3_attached)))
                  (snd (snd (smb235x_enable_apsd smb235x_hdr chip_kzalloc env_qc3_attached)))
                  True of
            (c, e) \<Rightarrow> smb235x_set_hvdcp3_voltage smb235x_hdr c e 5000000))) = 10"
  by code_simp

section \<open>The APSD-done handler\<close>


lemma apsd_result_types_keeps:
  "hvdcp3_voltage_uv (apsd_result_types h s c) = hvdcp3_voltage_uv c"
  "based_hvdcp_voltage_uv (apsd_result_types h s c) = based_hvdcp_voltage_uv c"
  "hvdcp_pulse_count_max (apsd_result_types h s c) = hvdcp_pulse_count_max c"
  "pd_active (apsd_result_types h s c) = pd_active c"
  "sdp_icl_ua (apsd_result_types h s c) = sdp_icl_ua c"
  "tcpm_psy (apsd_result_types h s c) = tcpm_psy c"
  by (simp_all add: apsd_result_types_def Let_def)

lemma tcpm_get_keeps:
  assumes "smb235x_get_prop_from_tcpm c e prop val = (rc, v, c1)"
  shows "hvdcp3_voltage_uv c1 = hvdcp3_voltage_uv c"
    "based_hvdcp_voltage_uv c1 = based_hvdcp_voltage_uv c"
    "hvdcp_pulse_count_max c1 = hvdcp_pulse_count_max c"
    "pd_active c1 = pd_active c" "sdp_icl_ua c1 = sdp_icl_ua c"
    "charger_type c1 = charger_type c" "usb_type c1 = usb_type c"
  using assms
  by (auto simp: smb235x_get_prop_from_tcpm_def Let_def split: prod.splits if_splits option.splits)


lemma get_chg_type_keeps:
  assumes "smb235x_get_chg_type h c e = (rc, c1, e1)"
  shows "hvdcp3_voltage_uv c1 = hvdcp3_voltage_uv c"
    "based_hvdcp_voltage_uv c1 = based_hvdcp_voltage_uv c"
    "hvdcp_pulse_count_max c1 = hvdcp_pulse_count_max c"
    "pd_active c1 = pd_active c" "sdp_icl_ua c1 = sdp_icl_ua c"
proof -
  obtain on ea where o: "smb235x_get_usb_online h e = (on, ea)"
    by (cases "smb235x_get_usb_online h e")
  obtain r2 pv c2 where q: "smb235x_get_prop_from_tcpm c ea POWER_SUPPLY_PROP_USB_TYPE 0 = (r2, pv, c2)"
    by (cases "smb235x_get_prop_from_tcpm c ea POWER_SUPPLY_PROP_USB_TYPE 0")
  obtain r3 st eb where r: "regmap_read ea USB_APSP_RESULT_STATUS_REG 0 = (r3, st, eb)"
    by (cases "regmap_read ea USB_APSP_RESULT_STATUS_REG 0")
  note k = tcpm_get_keeps [OF q]
  have "c1 = c\<lparr>charger_type := POWER_SUPPLY_TYPE_UNKNOWN h,
                  usb_type := POWER_SUPPLY_USB_TYPE_UNKNOWN h\<rparr>
        \<or> c1 = c2\<lparr>charger_type := pv, usb_type := pv\<rparr>
        \<or> c1 = c2
        \<or> c1 = apsd_result_types h (st AND APSD_RESULT_STATUS_MASK h) c2"
    using assms by (simp add: smb235x_get_chg_type_def o q r split: if_splits)
  then show "hvdcp3_voltage_uv c1 = hvdcp3_voltage_uv c"
    "based_hvdcp_voltage_uv c1 = based_hvdcp_voltage_uv c"
    "hvdcp_pulse_count_max c1 = hvdcp_pulse_count_max c"
    "pd_active c1 = pd_active c" "sdp_icl_ua c1 = sdp_icl_ua c"
    using k by (auto simp: apsd_result_types_keeps)
qed

lemma apsd_type_icl_not_hvdcp3:
  assumes "charger_type c \<noteq> POWER_SUPPLY_TYPE_USB_HVDCP_3 h"
    and "apsd_type_icl h c e = (g, icl, c3, e3)"
  shows "c3 = c"
  using assms unfolding apsd_type_icl_def
  by (simp split: if_splits prod.splits)

text \<open>
  C2, as the code has it.  When the APSD-done handler runs detection, detection
  succeeds and the charger type it leaves is not HVDCP3, the handler sets
  based_hvdcp_voltage_uv to the 5.0 V base and leaves hvdcp3_voltage_uv as it was.
\<close>

theorem apsd_done_rebaseline:
  assumes det: "smb235x_get_chg_type h c e = (rc, c1, e1)" and ok: "\<not> rc < 0"
    and ty: "charger_type c1 \<noteq> POWER_SUPPLY_TYPE_USB_HVDCP_3 h"
  shows "based_hvdcp_voltage_uv (fst (smb235x_handle_apsd_done h c e True)) = BASED_VOLTAGE_UV
       \<and> hvdcp3_voltage_uv (fst (smb235x_handle_apsd_done h c e True)) = hvdcp3_voltage_uv c
       \<and> charger_type (fst (smb235x_handle_apsd_done h c e True)) = charger_type c1"
proof -
  define c2 where "c2 = c1\<lparr>based_hvdcp_voltage_uv := BASED_VOLTAGE_UV\<rparr>"
  have t2: "charger_type c2 \<noteq> POWER_SUPPLY_TYPE_USB_HVDCP_3 h" using ty by (simp add: c2_def)
  obtain g icl c3 e3 where sw: "apsd_type_icl h c2 e1 = (g, icl, c3, e3)"
    by (cases "apsd_type_icl h c2 e1") auto
  have c3: "c3 = c2" using apsd_type_icl_not_hvdcp3 [OF t2 sw] .
  have k: "hvdcp3_voltage_uv c2 = hvdcp3_voltage_uv c"
    using get_chg_type_keeps(1) [OF det] by (simp add: c2_def)
  obtain r4 pv c4 where q: "smb235x_get_prop_from_tcpm c2 e3 POWER_SUPPLY_PROP_CURRENT_MAX 0 = (r4, pv, c4)"
    by (cases "smb235x_get_prop_from_tcpm c2 e3 POWER_SUPPLY_PROP_CURRENT_MAX 0")
  note k4 = tcpm_get_keeps [OF q]
  have sw': "apsd_type_icl h (c1\<lparr>based_hvdcp_voltage_uv := BASED_VOLTAGE_UV\<rparr>) e1 = (g, icl, c2, e3)"
    using sw c3 by (simp add: c2_def)
  have "fst (smb235x_handle_apsd_done h c e True) = c2 \<or> fst (smb235x_handle_apsd_done h c e True) = c4"
    using ok ty
    by (simp add: smb235x_handle_apsd_done_def det sw' q Let_def split: prod.splits)
  then show ?thesis using k k4 by (auto simp: c2_def)
qed


theorem apsd_done_rebaseline_witness:
  "\<not> fst (smb235x_get_chg_type smb235x_hdr chip_hvdcp3_at_6v env_dcp_attached) < 0
   \<and> charger_type (fst (snd (smb235x_get_chg_type smb235x_hdr chip_hvdcp3_at_6v env_dcp_attached)))
        \<noteq> POWER_SUPPLY_TYPE_USB_HVDCP_3 smb235x_hdr
   \<and> based_hvdcp_voltage_uv
         (fst (smb235x_handle_apsd_done smb235x_hdr chip_hvdcp3_at_6v env_dcp_attached True))
        = BASED_VOLTAGE_UV
   \<and> hvdcp3_voltage_uv
         (fst (smb235x_handle_apsd_done smb235x_hdr chip_hvdcp3_at_6v env_dcp_attached True))
        = hvdcp3_voltage_uv chip_hvdcp3_at_6v"
proof -
  let ?G = "smb235x_get_chg_type smb235x_hdr chip_hvdcp3_at_6v env_dcp_attached"
  have g: "?G = (fst ?G, fst (snd ?G), snd (snd ?G))" by simp
  have ok: "\<not> fst ?G < 0" by code_simp
  have ty: "charger_type (fst (snd ?G)) \<noteq> POWER_SUPPLY_TYPE_USB_HVDCP_3 smb235x_hdr"
    by code_simp
  from apsd_done_rebaseline [OF g ok ty] ok ty show ?thesis by blast
qed

text \<open>
  C2 as stated fails for hvdcp3_voltage_uv: after an HVDCP3 session stepped to 6.0 V, the
  handler detects a DCP and hvdcp3_voltage_uv is still 6.0 V, not the 9.0 V default.
\<close>

theorem apsd_done_keeps_hvdcp3_voltage:
  "fst (smb235x_get_chg_type smb235x_hdr chip_hvdcp3_at_6v env_dcp_attached) = 0
   \<and> charger_type (fst (smb235x_handle_apsd_done smb235x_hdr chip_hvdcp3_at_6v
                           env_dcp_attached True))
        = POWER_SUPPLY_TYPE_USB_DCP smb235x_hdr
   \<and> POWER_SUPPLY_TYPE_USB_DCP smb235x_hdr \<noteq> POWER_SUPPLY_TYPE_USB_HVDCP_3 smb235x_hdr
   \<and> hvdcp3_voltage_uv (fst (smb235x_handle_apsd_done smb235x_hdr chip_hvdcp3_at_6v
                                env_dcp_attached True)) = 6000000
   \<and> hvdcp3_voltage_uv (fst (smb235x_handle_apsd_done smb235x_hdr chip_hvdcp3_at_6v
                                env_dcp_attached True)) \<noteq> QC3_DEFAULT_VOLTAGE_UV"
  by code_simp


lemma update_bits_idle:
  "rcs e = [] \<Longrightarrow> fst (regmap_update_bits e r m v) = 0
     \<and> rcs (snd (regmap_update_bits e r m v)) = []"
  by (simp add: regmap_update_bits_def next_rc_def Let_def)

lemma write_idle:
  "rcs e = [] \<Longrightarrow> fst (regmap_write e r v) = 0
     \<and> rcs (snd (regmap_write e r v)) = []
     \<and> regs (snd (regmap_write e r v)) r = v"
  by (simp add: regmap_write_def next_rc_def Let_def)

lemma set_icl_sw_programs:
  assumes "rcs e = []"
  shows "regs (snd (smb235x_set_icl_sw h e m)) USBIN_CURRENT_LIMIT_CFG_REG
           = of_u8 (to_u8 (c_div m CURRENT_STEP_MA))"
proof -
  let ?u1 = "regmap_update_bits e USBIN_LOAD_CFG_REG
               (ICL_OVERRIDE_AFTER_APSD_BIT h) (ICL_OVERRIDE_AFTER_APSD_BIT h)"
  let ?u2 = "regmap_update_bits (snd ?u1) USB_CMD_ICL_OVERRIDE_REG
               (ICL_OVERRIDE_BIT h) (ICL_OVERRIDE_BIT h)"
  have a: "fst ?u1 = 0" "rcs (snd ?u1) = []" using update_bits_idle [OF assms] by simp_all
  have b: "fst ?u2 = 0" "rcs (snd ?u2) = []" using update_bits_idle [OF a(2)] by simp_all
  have "smb235x_set_icl_sw h e m
          = regmap_write (snd ?u2) USBIN_CURRENT_LIMIT_CFG_REG (of_u8 (to_u8 (c_div m CURRENT_STEP_MA)))"
    using a(1) b(1) by (simp add: smb235x_set_icl_sw_def Let_def case_prod_beta)
  then show ?thesis using write_idle [OF b(2)] by simp
qed

text \<open>
  C3.  In the APSD-done handler, when detection succeeded, the per-type switch did not
  leave the handler, pd_active is set and the peer's CURRENT_MAX query succeeds with
  value pval, the limit handed to smb235x_set_icl_sw is pval / 1000 and the per-type
  value icl_ma is discarded; when no bus transaction fails, the limit register then
  holds the code of pval / 1000 mA.
\<close>

theorem apsd_done_pd_override:
  assumes det: "smb235x_get_chg_type h c e = (rc, c1, e1)" and ok: "\<not> rc < 0"
    and sw: "apsd_type_icl h
               (if charger_type c1 \<noteq> POWER_SUPPLY_TYPE_USB_HVDCP_3 h
                then c1\<lparr>based_hvdcp_voltage_uv := BASED_VOLTAGE_UV\<rparr> else c1) e1
             = (True, icl_ma, c3, e3)"
    and pd: "pd_active c3"
    and q: "smb235x_get_prop_from_tcpm c3 e3 POWER_SUPPLY_PROP_CURRENT_MAX 0 = (r4, pval, c4)"
    and qok: "\<not> r4 < 0"
  shows "smb235x_handle_apsd_done h c e True
           = (c4, snd (smb235x_set_icl_sw h e3 (c_div pval MICRO_TO_MILLI)))
       \<and> (rcs e3 = [] \<longrightarrow>
            regs (snd (smb235x_handle_apsd_done h c e True)) USBIN_CURRENT_LIMIT_CFG_REG
              = of_u8 (to_u8 (c_div (c_div pval MICRO_TO_MILLI) CURRENT_STEP_MA)))"
proof -
  have run: "smb235x_handle_apsd_done h c e True
           = (c4, snd (smb235x_set_icl_sw h e3 (c_div pval MICRO_TO_MILLI)))"
    using ok pd qok
    by (simp add: smb235x_handle_apsd_done_def det sw q Let_def split: prod.splits)
  show ?thesis unfolding run by (simp add: set_icl_sw_programs)
qed

theorem apsd_done_pd_override_witness:
  "pd_active chip_pd_active
   \<and> tcpm_900ma POWER_SUPPLY_PROP_CURRENT_MAX = (0, 900000)
   \<and> charger_type (fst (smb235x_handle_apsd_done smb235x_hdr chip_pd_active env_dcp_with_tcpm True))
        = POWER_SUPPLY_TYPE_USB_DCP smb235x_hdr
   \<and> regs (snd (smb235x_handle_apsd_done smb235x_hdr chip_pd_active env_dcp_with_tcpm True))
        USBIN_CURRENT_LIMIT_CFG_REG
        = of_u8 (to_u8 (c_div (c_div 900000 MICRO_TO_MILLI) CURRENT_STEP_MA))
   \<and> of_u8 (to_u8 (c_div (c_div 900000 MICRO_TO_MILLI) CURRENT_STEP_MA)) = 18
   \<and> of_u8 (to_u8 (c_div (c_div DCP_CURRENT_UA MICRO_TO_MILLI) CURRENT_STEP_MA)) = 30"
proof -
  let ?h = smb235x_hdr
  let ?G = "smb235x_get_chg_type ?h chip_pd_active env_dcp_with_tcpm"
  let ?c2 = "if charger_type (fst (snd ?G)) \<noteq> POWER_SUPPLY_TYPE_USB_HVDCP_3 ?h
             then (fst (snd ?G))\<lparr>based_hvdcp_voltage_uv := BASED_VOLTAGE_UV\<rparr> else fst (snd ?G)"
  let ?S = "apsd_type_icl ?h ?c2 (snd (snd ?G))"
  let ?c3 = "fst (snd (snd ?S))"
  let ?e3 = "snd (snd (snd ?S))"
  let ?Q = "smb235x_get_prop_from_tcpm ?c3 ?e3 POWER_SUPPLY_PROP_CURRENT_MAX 0"
  have g: "?G = (fst ?G, fst (snd ?G), snd (snd ?G))" by simp
  have ok: "\<not> fst ?G < 0" by code_simp
  have s1: "fst ?S" by code_simp
  have s: "?S = (True, fst (snd ?S), ?c3, ?e3)" using s1 by (simp add: prod_eq_iff)
  have pd: "pd_active ?c3" by code_simp
  have q1: "fst (snd ?Q) = 900000" by code_simp
  have q: "?Q = (fst ?Q, 900000, snd (snd ?Q))" using q1 by (simp add: prod_eq_iff)
  have qok: "\<not> fst ?Q < 0" by code_simp
  have idle: "rcs ?e3 = []" by code_simp
  from apsd_done_pd_override [OF g ok s pd q qok] idle
  have R: "regs (snd (smb235x_handle_apsd_done ?h chip_pd_active env_dcp_with_tcpm True))
             USBIN_CURRENT_LIMIT_CFG_REG
           = of_u8 (to_u8 (c_div (c_div 900000 MICRO_TO_MILLI) CURRENT_STEP_MA))"
    by blast
  have a: "pd_active chip_pd_active" by code_simp
  have b: "tcpm_900ma POWER_SUPPLY_PROP_CURRENT_MAX = (0, 900000)" by code_simp
  have t: "charger_type (fst (smb235x_handle_apsd_done ?h chip_pd_active env_dcp_with_tcpm True))
        = POWER_SUPPLY_TYPE_USB_DCP ?h" by code_simp
  have n: "of_u8 (to_u8 (c_div (c_div 900000 MICRO_TO_MILLI) CURRENT_STEP_MA)) = 18
   \<and> of_u8 (to_u8 (c_div (c_div DCP_CURRENT_UA MICRO_TO_MILLI) CURRENT_STEP_MA)) = 30"
    by code_simp
  from a b t R n show ?thesis by blast
qed

section \<open>Charger type detection\<close>


lemma apsd_result_types_last_match:
  "spec_apsd_matches h s \<noteq> [] \<longrightarrow>
   (charger_type (apsd_result_types h s c), usb_type (apsd_result_types h s c))
           = snd (last (spec_apsd_matches h s))"
  by (simp add: apsd_result_types_def spec_apsd_matches_def spec_apsd_order_def Let_def)

lemma apsd_result_types_float_dcp:
  "s AND DCP_CHARGER_BIT h \<noteq> 0 \<and> s AND CDP_CHARGER_BIT h = 0
     \<and> s AND SDP_CHARGER_BIT h = 0 \<and> s AND QC_3P0_BIT h = 0 \<and> s AND QC_2P0_BIT h = 0
   \<longrightarrow> charger_type (apsd_result_types h s c) = POWER_SUPPLY_TYPE_USB_DCP h
     \<and> usb_type (apsd_result_types h s c) = POWER_SUPPLY_USB_TYPE_DCP h"
  by (simp add: apsd_result_types_def Let_def)

text \<open>
  C4.  When the port is online and the negotiation peer is absent, fails or reports the
  plain Type-C type, and the APSD result is read with at least one of the seven status
  bits set under the mask, smb235x_get_chg_type succeeds and leaves the charger type and
  USB type mapped from the last set bit in the order Float, DCP, over-current DCP, CDP,
  SDP, QC3.0, QC2.0.  In particular Float and DCP together, with no bit tested after
  over-current DCP set, give DCP.
\<close>

theorem chg_type_last_matching_bit:
  assumes on: "smb235x_get_usb_online h e = (True, e1)"
    and peer: "smb235x_get_prop_from_tcpm c e1 POWER_SUPPLY_PROP_USB_TYPE 0 = (r2, pv, c1)"
    and autonomous: "r2 < 0 \<or> pv = POWER_SUPPLY_USB_TYPE_C h"
    and rd: "regmap_read e1 USB_APSP_RESULT_STATUS_REG 0 = (r3, stat, e2)"
    and rok: "\<not> r3 < 0"
    and m: "spec_apsd_matches h (stat AND APSD_RESULT_STATUS_MASK h) \<noteq> []"
  shows "fst (smb235x_get_chg_type h c e) = 0
       \<and> (charger_type (fst (snd (smb235x_get_chg_type h c e))),
          usb_type (fst (snd (smb235x_get_chg_type h c e))))
           = snd (last (spec_apsd_matches h (stat AND APSD_RESULT_STATUS_MASK h)))
       \<and> ((stat AND APSD_RESULT_STATUS_MASK h) AND FLOAT_CHARGER_BIT h \<noteq> 0
            \<and> (stat AND APSD_RESULT_STATUS_MASK h) AND DCP_CHARGER_BIT h \<noteq> 0
            \<and> (stat AND APSD_RESULT_STATUS_MASK h) AND CDP_CHARGER_BIT h = 0
            \<and> (stat AND APSD_RESULT_STATUS_MASK h) AND SDP_CHARGER_BIT h = 0
            \<and> (stat AND APSD_RESULT_STATUS_MASK h) AND QC_3P0_BIT h = 0
            \<and> (stat AND APSD_RESULT_STATUS_MASK h) AND QC_2P0_BIT h = 0
          \<longrightarrow> charger_type (fst (snd (smb235x_get_chg_type h c e))) = POWER_SUPPLY_TYPE_USB_DCP h
            \<and> usb_type (fst (snd (smb235x_get_chg_type h c e))) = POWER_SUPPLY_USB_TYPE_DCP h)"
proof -
  have run: "smb235x_get_chg_type h c e
               = (0, apsd_result_types h (stat AND APSD_RESULT_STATUS_MASK h) c1, e2)"
    using autonomous rok by (auto simp: smb235x_get_chg_type_def on peer rd)
  show ?thesis
    unfolding run using m apsd_result_types_last_match [of h "stat AND APSD_RESULT_STATUS_MASK h" c1]
      apsd_result_types_float_dcp [of "stat AND APSD_RESULT_STATUS_MASK h" h c1]
    by simp
qed

theorem chg_type_last_matching_bit_witness:
  "fst (smb235x_get_usb_online smb235x_hdr env_float_dcp)
   \<and> fst (smb235x_get_prop_from_tcpm chip_kzalloc (snd (smb235x_get_usb_online smb235x_hdr env_float_dcp))
            POWER_SUPPLY_PROP_USB_TYPE 0) < 0
   \<and> spec_apsd_matches smb235x_hdr (24 AND APSD_RESULT_STATUS_MASK smb235x_hdr)
        = [(FLOAT_CHARGER_BIT smb235x_hdr, POWER_SUPPLY_TYPE_USB_FLOAT smb235x_hdr,
            POWER_SUPPLY_USB_TYPE_UNKNOWN smb235x_hdr),
           (DCP_CHARGER_BIT smb235x_hdr, POWER_SUPPLY_TYPE_USB_DCP smb235x_hdr,
            POWER_SUPPLY_USB_TYPE_DCP smb235x_hdr)]
   \<and> fst (smb235x_get_chg_type smb235x_hdr chip_kzalloc env_float_dcp) = 0
   \<and> charger_type (fst (snd (smb235x_get_chg_type smb235x_hdr chip_kzalloc env_float_dcp)))
        = POWER_SUPPLY_TYPE_USB_DCP smb235x_hdr
   \<and> usb_type (fst (snd (smb235x_get_chg_type smb235x_hdr chip_kzalloc env_float_dcp)))
        = POWER_SUPPLY_USB_TYPE_DCP smb235x_hdr"
proof -
  let ?h = smb235x_hdr
  let ?O = "smb235x_get_usb_online ?h env_float_dcp"
  let ?P = "smb235x_get_prop_from_tcpm chip_kzalloc (snd ?O) POWER_SUPPLY_PROP_USB_TYPE 0"
  let ?R = "regmap_read (snd ?O) USB_APSP_RESULT_STATUS_REG 0"
  let ?s = "(24 :: u32) AND APSD_RESULT_STATUS_MASK ?h"
  have o1: "fst ?O" by code_simp
  have on: "?O = (True, snd ?O)" using o1 by (simp add: prod_eq_iff)
  have p: "?P = (fst ?P, fst (snd ?P), snd (snd ?P))" by simp
  have p1: "fst ?P < 0" by code_simp
  have r1: "fst (snd ?R) = 24" by code_simp
  have rd: "?R = (fst ?R, 24, snd (snd ?R))" using r1 by (simp add: prod_eq_iff)
  have rok: "\<not> fst ?R < 0" by code_simp
  have ms: "spec_apsd_matches ?h ?s
        = [(FLOAT_CHARGER_BIT ?h, POWER_SUPPLY_TYPE_USB_FLOAT ?h, POWER_SUPPLY_USB_TYPE_UNKNOWN ?h),
           (DCP_CHARGER_BIT ?h, POWER_SUPPLY_TYPE_USB_DCP ?h, POWER_SUPPLY_USB_TYPE_DCP ?h)]"
    by code_simp
  have m: "spec_apsd_matches ?h ?s \<noteq> []" unfolding ms by simp
  have bits: "?s AND FLOAT_CHARGER_BIT ?h \<noteq> 0 \<and> ?s AND DCP_CHARGER_BIT ?h \<noteq> 0
            \<and> ?s AND CDP_CHARGER_BIT ?h = 0 \<and> ?s AND SDP_CHARGER_BIT ?h = 0
            \<and> ?s AND QC_3P0_BIT ?h = 0 \<and> ?s AND QC_2P0_BIT ?h = 0"
    by code_simp
  from chg_type_last_matching_bit [OF on p disjI1 [OF p1] rd rok m] bits
  have "fst (smb235x_get_chg_type ?h chip_kzalloc env_float_dcp) = 0
   \<and> charger_type (fst (snd (smb235x_get_chg_type ?h chip_kzalloc env_float_dcp)))
        = POWER_SUPPLY_TYPE_USB_DCP ?h
   \<and> usb_type (fst (snd (smb235x_get_chg_type ?h chip_kzalloc env_float_dcp)))
        = POWER_SUPPLY_USB_TYPE_DCP ?h"
    by blast
  with o1 p1 ms show ?thesis by blast
qed

section \<open>Failed register reads\<close>


lemma usb_online_read_fails:
  "next_rc e < 0 \<Longrightarrow>
   smb235x_get_usb_online h e
     = (False, e\<lparr>rcs := tl (rcs e),
                  trace := BusRead DCDC_POWER_PATH_STATUS_REG (next_rc e) # trace e\<rparr>)"
  by (simp add: smb235x_get_usb_online_def regmap_read_def Let_def)

lemma read_fails:
  "next_rc e < 0 \<Longrightarrow> fst (regmap_read e r old) = next_rc e"
  by (simp add: regmap_read_def Let_def)

text \<open>
  C5, as the code has it.  A failed read of the power-path status register is not
  reported: smb235x_get_chg_type then returns 0 with both types Unknown.  A failed read
  of the APSD result register (port online, no peer answer other than plain Type-C) is
  reported: the function returns the negative code of the read.
\<close>

theorem chg_type_read_failures:
  "(next_rc e < 0 \<longrightarrow>
      fst (smb235x_get_chg_type h c e) = 0
      \<and> charger_type (fst (snd (smb235x_get_chg_type h c e))) = POWER_SUPPLY_TYPE_UNKNOWN h
      \<and> usb_type (fst (snd (smb235x_get_chg_type h c e))) = POWER_SUPPLY_USB_TYPE_UNKNOWN h)
   \<and> (smb235x_get_usb_online h e = (True, e1)
       \<and> smb235x_get_prop_from_tcpm c e1 POWER_SUPPLY_PROP_USB_TYPE 0 = (r2, pv, c1)
       \<and> (r2 < 0 \<or> pv = POWER_SUPPLY_USB_TYPE_C h)
       \<and> next_rc e1 < 0 \<longrightarrow>
      fst (smb235x_get_chg_type h c e) = next_rc e1
      \<and> fst (smb235x_get_chg_type h c e) < 0)"
proof (intro conjI impI)
  assume f: "next_rc e < 0"
  have run: "smb235x_get_chg_type h c e
      = (0, c\<lparr>charger_type := POWER_SUPPLY_TYPE_UNKNOWN h,
               usb_type := POWER_SUPPLY_USB_TYPE_UNKNOWN h\<rparr>,
         e\<lparr>rcs := tl (rcs e),
           trace := BusRead DCDC_POWER_PATH_STATUS_REG (next_rc e) # trace e\<rparr>)"
    by (simp add: smb235x_get_chg_type_def usb_online_read_fails [OF f])
  show "fst (smb235x_get_chg_type h c e) = 0" unfolding run by simp
  show "charger_type (fst (snd (smb235x_get_chg_type h c e))) = POWER_SUPPLY_TYPE_UNKNOWN h"
    unfolding run by simp
  show "usb_type (fst (snd (smb235x_get_chg_type h c e))) = POWER_SUPPLY_USB_TYPE_UNKNOWN h"
    unfolding run by simp
next
  assume a: "smb235x_get_usb_online h e = (True, e1)
       \<and> smb235x_get_prop_from_tcpm c e1 POWER_SUPPLY_PROP_USB_TYPE 0 = (r2, pv, c1)
       \<and> (r2 < 0 \<or> pv = POWER_SUPPLY_USB_TYPE_C h)
       \<and> next_rc e1 < 0"
  then have on: "smb235x_get_usb_online h e = (True, e1)"
    and peer: "smb235x_get_prop_from_tcpm c e1 POWER_SUPPLY_PROP_USB_TYPE 0 = (r2, pv, c1)"
    and au: "r2 < 0 \<or> pv = POWER_SUPPLY_USB_TYPE_C h" and f: "next_rc e1 < 0"
    by simp_all
  obtain r3 st e2 where rd: "regmap_read e1 USB_APSP_RESULT_STATUS_REG 0 = (r3, st, e2)"
    by (cases "regmap_read e1 USB_APSP_RESULT_STATUS_REG 0")
  have r3: "r3 = next_rc e1" using read_fails [OF f, of USB_APSP_RESULT_STATUS_REG 0] rd by simp
  have run: "fst (smb235x_get_chg_type h c e) = r3"
    using au f r3 by (auto simp: smb235x_get_chg_type_def on peer rd)
  show "fst (smb235x_get_chg_type h c e) = next_rc e1" using run r3 by simp
  show "fst (smb235x_get_chg_type h c e) < 0" using run r3 f by simp
qed

theorem chg_type_read_failures_witness:
  "(next_rc env_bus_fault < 0
      \<and> fst (smb235x_get_chg_type smb235x_hdr chip_kzalloc env_bus_fault) = 0)
   \<and> (fst (smb235x_get_usb_online smb235x_hdr env_dcp_attached)
      \<and> fst (smb235x_get_prop_from_tcpm chip_kzalloc (env_dcp_attached\<lparr>rcs := [0, - 5]\<rparr>)
               POWER_SUPPLY_PROP_USB_TYPE 0) < 0
      \<and> fst (smb235x_get_chg_type smb235x_hdr chip_kzalloc (env_dcp_attached\<lparr>rcs := [0, - 5]\<rparr>)) = - 5)"
proof -
  let ?h = smb235x_hdr
  let ?e = "env_dcp_attached\<lparr>rcs := [0, - 5]\<rparr>"
  let ?O = "smb235x_get_usb_online ?h ?e"
  let ?P = "smb235x_get_prop_from_tcpm chip_kzalloc (snd ?O) POWER_SUPPLY_PROP_USB_TYPE 0"
  have f: "next_rc env_bus_fault < 0" by code_simp
  from chg_type_read_failures [of env_bus_fault ?h chip_kzalloc] f
  have A: "fst (smb235x_get_chg_type ?h chip_kzalloc env_bus_fault) = 0" by blast
  have o1: "fst ?O" by code_simp
  have on: "?O = (True, snd ?O)" using o1 by (simp add: prod_eq_iff)
  have p: "?P = (fst ?P, fst (snd ?P), snd (snd ?P))" by simp
  have p1: "fst ?P < 0" by code_simp
  have f2: "next_rc (snd ?O) < 0" by code_simp
  have n: "next_rc (snd ?O) = - 5" by code_simp
  from chg_type_read_failures [where h = ?h and c = chip_kzalloc and e = ?e and ?e1.0 = "snd ?O"
      and ?r2.0 = "fst ?P" and pv = "fst (snd ?P)" and ?c1.0 = "snd (snd ?P)"]
    on p p1 f2
  have "fst (smb235x_get_chg_type ?h chip_kzalloc ?e) = next_rc (snd ?O)" by blast
  then have B: "fst (smb235x_get_chg_type ?h chip_kzalloc ?e) = - 5" using n by simp
  have o2: "fst (smb235x_get_usb_online ?h env_dcp_attached)" by code_simp
  have p2: "fst (smb235x_get_prop_from_tcpm chip_kzalloc ?e POWER_SUPPLY_PROP_USB_TYPE 0) < 0"
    by code_simp
  from f A o2 p2 B show ?thesis by blast
qed

text \<open>
  C5 as stated fails for the power-path read: with that read failing with -5, detection
  returns 0.
\<close>

theorem chg_type_power_path_failure_succeeds:
  "next_rc env_bus_fault = - 5
   \<and> trace (snd (snd (smb235x_get_chg_type smb235x_hdr chip_kzalloc env_bus_fault)))
        = [BusRead DCDC_POWER_PATH_STATUS_REG (- 5)]
   \<and> fst (smb235x_get_chg_type smb235x_hdr chip_kzalloc env_bus_fault) = 0
   \<and> \<not> fst (smb235x_get_chg_type smb235x_hdr chip_kzalloc env_bus_fault) < 0"
  by code_simp


text \<open>
  C10.  When the read of the power-path status register fails, smb235x_get_usb_online
  returns false and nothing is propagated: charger-type detection returns 0 with the
  Unknown types, the battery status (its own status read succeeding) is the offline
  one, Full or Discharging, and the usb property getters for online, current-max and
  voltage-max/now return 0 with value 0.
\<close>

theorem power_path_failure_reads_offline:
  assumes f: "next_rc e < 0"
  shows "fst (smb235x_get_usb_online h e) = False
    \<and> fst (smb235x_get_chg_type h c e) = 0
    \<and> charger_type (fst (snd (smb235x_get_chg_type h c e))) = POWER_SUPPLY_TYPE_UNKNOWN h
    \<and> usb_type (fst (snd (smb235x_get_chg_type h c e))) = POWER_SUPPLY_USB_TYPE_UNKNOWN h
    \<and> (\<not> next_rc (snd (smb235x_get_usb_online h e)) < 0 \<longrightarrow>
         \<not> fst (smb235x_get_prop_battery_status h e pval) < 0
         \<and> fst (snd (smb235x_get_prop_battery_status h e pval))
             = (if regs e BATTERY_CHARGER_STATUS_1_REG AND BATTERY_CHARGER_STATUS_MASK h
                     = TERMINATE_CHARGE h
                   \<or> regs e BATTERY_CHARGER_STATUS_1_REG AND BATTERY_CHARGER_STATUS_MASK h
                     = INHIBIT_CHARGE h
                then POWER_SUPPLY_STATUS_FULL h else POWER_SUPPLY_STATUS_DISCHARGING h))
    \<and> fst (smb235x_usb_get_prop h c e POWER_SUPPLY_PROP_ONLINE pval) = 0
    \<and> fst (snd (smb235x_usb_get_prop h c e POWER_SUPPLY_PROP_ONLINE pval)) = 0
    \<and> fst (smb235x_usb_get_prop h c e POWER_SUPPLY_PROP_CURRENT_MAX pval) = 0
    \<and> fst (snd (smb235x_usb_get_prop h c e POWER_SUPPLY_PROP_CURRENT_MAX pval)) = 0
    \<and> fst (smb235x_usb_get_prop h c e POWER_SUPPLY_PROP_VOLTAGE_MAX pval) = 0
    \<and> fst (snd (smb235x_usb_get_prop h c e POWER_SUPPLY_PROP_VOLTAGE_MAX pval)) = 0
    \<and> fst (smb235x_usb_get_prop h c e POWER_SUPPLY_PROP_VOLTAGE_NOW pval) = 0
    \<and> fst (snd (smb235x_usb_get_prop h c e POWER_SUPPLY_PROP_VOLTAGE_NOW pval)) = 0"
proof -
  define e1 where "e1 = e\<lparr>rcs := tl (rcs e),
                  trace := BusRead DCDC_POWER_PATH_STATUS_REG (next_rc e) # trace e\<rparr>"
  have on: "smb235x_get_usb_online h e = (False, e1)"
    unfolding e1_def by (rule usb_online_read_fails [OF f])
  have t: "fst (smb235x_get_chg_type h c e) = 0
    \<and> charger_type (fst (snd (smb235x_get_chg_type h c e))) = POWER_SUPPLY_TYPE_UNKNOWN h
    \<and> usb_type (fst (snd (smb235x_get_chg_type h c e))) = POWER_SUPPLY_USB_TYPE_UNKNOWN h"
    by (simp add: smb235x_get_chg_type_def on)
  have b: "\<not> next_rc e1 < 0 \<longrightarrow>
         \<not> fst (smb235x_get_prop_battery_status h e pval) < 0
         \<and> fst (snd (smb235x_get_prop_battery_status h e pval))
             = (if regs e BATTERY_CHARGER_STATUS_1_REG AND BATTERY_CHARGER_STATUS_MASK h
                     = TERMINATE_CHARGE h
                   \<or> regs e BATTERY_CHARGER_STATUS_1_REG AND BATTERY_CHARGER_STATUS_MASK h
                     = INHIBIT_CHARGE h
                then POWER_SUPPLY_STATUS_FULL h else POWER_SUPPLY_STATUS_DISCHARGING h)"
  proof
    assume ok: "\<not> next_rc e1 < 0"
    have rd: "regmap_read e1 BATTERY_CHARGER_STATUS_1_REG 0
        = (next_rc e1, regs e BATTERY_CHARGER_STATUS_1_REG,
           e1\<lparr>rcs := tl (rcs e1),
               trace := BusRead BATTERY_CHARGER_STATUS_1_REG (next_rc e1) # trace e1\<rparr>)"
      using ok by (simp add: regmap_read_def Let_def e1_def)
    show "\<not> fst (smb235x_get_prop_battery_status h e pval) < 0
         \<and> fst (snd (smb235x_get_prop_battery_status h e pval))
             = (if regs e BATTERY_CHARGER_STATUS_1_REG AND BATTERY_CHARGER_STATUS_MASK h
                     = TERMINATE_CHARGE h
                   \<or> regs e BATTERY_CHARGER_STATUS_1_REG AND BATTERY_CHARGER_STATUS_MASK h
                     = INHIBIT_CHARGE h
                then POWER_SUPPLY_STATUS_FULL h else POWER_SUPPLY_STATUS_DISCHARGING h)"
      using ok by (simp add: smb235x_get_prop_battery_status_def on rd Let_def)
  qed
  have o: "fst (smb235x_usb_get_prop h c e POWER_SUPPLY_PROP_ONLINE pval) = 0
    \<and> fst (snd (smb235x_usb_get_prop h c e POWER_SUPPLY_PROP_ONLINE pval)) = 0"
    by (simp add: smb235x_usb_get_prop_def on)
  have i: "fst (smb235x_usb_get_prop h c e POWER_SUPPLY_PROP_CURRENT_MAX pval) = 0
    \<and> fst (snd (smb235x_usb_get_prop h c e POWER_SUPPLY_PROP_CURRENT_MAX pval)) = 0"
    by (simp add: smb235x_usb_get_prop_def smb235x_get_prop_usb_icl_def on)
  have v: "fst (smb235x_usb_get_prop h c e POWER_SUPPLY_PROP_VOLTAGE_MAX pval) = 0
    \<and> fst (snd (smb235x_usb_get_prop h c e POWER_SUPPLY_PROP_VOLTAGE_MAX pval)) = 0"
    by (simp add: smb235x_usb_get_prop_def smb235x_get_prop_usb_voltage_def on)
  have w: "fst (smb235x_usb_get_prop h c e POWER_SUPPLY_PROP_VOLTAGE_NOW pval) = 0
    \<and> fst (snd (smb235x_usb_get_prop h c e POWER_SUPPLY_PROP_VOLTAGE_NOW pval)) = 0"
    by (simp add: smb235x_usb_get_prop_def smb235x_get_prop_usb_voltage_def on)
  from on t b o i v w show ?thesis by simp
qed

theorem power_path_failure_reads_offline_witness:
  "next_rc env_bus_fault < 0
   \<and> fst (smb235x_get_usb_online smb235x_hdr env_bus_fault) = False
   \<and> fst (smb235x_get_chg_type smb235x_hdr chip_hvdcp3_at_6v env_bus_fault) = 0
   \<and> charger_type (fst (snd (smb235x_get_chg_type smb235x_hdr chip_hvdcp3_at_6v env_bus_fault)))
       = POWER_SUPPLY_TYPE_UNKNOWN smb235x_hdr
   \<and> \<not> next_rc (snd (smb235x_get_usb_online smb235x_hdr env_bus_fault)) < 0
   \<and> \<not> fst (smb235x_get_prop_battery_status smb235x_hdr env_bus_fault 7) < 0
   \<and> fst (snd (smb235x_get_prop_battery_status smb235x_hdr env_bus_fault 7))
       = POWER_SUPPLY_STATUS_DISCHARGING smb235x_hdr
   \<and> fst (smb235x_usb_get_prop smb235x_hdr chip_hvdcp3_at_6v env_bus_fault
            POWER_SUPPLY_PROP_ONLINE 7) = 0
   \<and> fst (snd (smb235x_usb_get_prop smb235x_hdr chip_hvdcp3_at_6v env_bus_fault
                 POWER_SUPPLY_PROP_CURRENT_MAX 7)) = 0
   \<and> fst (snd (smb235x_usb_get_prop smb235x_hdr chip_hvdcp3_at_6v env_bus_fault
                 POWER_SUPPLY_PROP_VOLTAGE_NOW 7)) = 0"
proof -
  have f: "next_rc env_bus_fault < 0" by code_simp
  have ok: "\<not> next_rc (snd (smb235x_get_usb_online smb235x_hdr env_bus_fault)) < 0"
    by code_simp
  have st: "(if regs env_bus_fault BATTERY_CHARGER_STATUS_1_REG
                   AND BATTERY_CHARGER_STATUS_MASK smb235x_hdr = TERMINATE_CHARGE smb235x_hdr
                \<or> regs env_bus_fault BATTERY_CHARGER_STATUS_1_REG
                   AND BATTERY_CHARGER_STATUS_MASK smb235x_hdr = INHIBIT_CHARGE smb235x_hdr
             then POWER_SUPPLY_STATUS_FULL smb235x_hdr
             else POWER_SUPPLY_STATUS_DISCHARGING smb235x_hdr)
            = POWER_SUPPLY_STATUS_DISCHARGING smb235x_hdr"
    by code_simp
  note T = power_path_failure_reads_offline [OF f, of smb235x_hdr chip_hvdcp3_at_6v 7]
  from T f ok show ?thesis unfolding st by blast
qed

section \<open>Battery status\<close>


text \<open>
  C7, as the code has it.  When usb_online is false and the charger-status register is
  read, the battery status is Full if the masked status is TERMINATE_CHARGE or
  INHIBIT_CHARGE, and Discharging for every other value.
\<close>

theorem battery_status_offline:
  assumes off: "smb235x_get_usb_online h e = (False, e1)"
    and rd: "regmap_read e1 BATTERY_CHARGER_STATUS_1_REG 0 = (rc, stat, e2)"
    and ok: "\<not> rc < 0"
  shows "smb235x_get_prop_battery_status h e pval
           = (rc,
              if stat AND BATTERY_CHARGER_STATUS_MASK h = TERMINATE_CHARGE h
                 \<or> stat AND BATTERY_CHARGER_STATUS_MASK h = INHIBIT_CHARGE h
              then POWER_SUPPLY_STATUS_FULL h else POWER_SUPPLY_STATUS_DISCHARGING h,
              e2)"
  using ok by (simp add: smb235x_get_prop_battery_status_def off rd Let_def)


theorem battery_status_offline_witness:
  "fst (smb235x_get_usb_online smb235x_hdr env_unplugged_inhibit) = False
   \<and> \<not> fst (regmap_read (snd (smb235x_get_usb_online smb235x_hdr env_unplugged_inhibit))
              BATTERY_CHARGER_STATUS_1_REG 0) < 0
   \<and> fst (snd (smb235x_get_prop_battery_status smb235x_hdr env_unplugged_inhibit 0))
        = POWER_SUPPLY_STATUS_FULL smb235x_hdr"
proof -
  let ?h = smb235x_hdr
  let ?O = "smb235x_get_usb_online ?h env_unplugged_inhibit"
  let ?R = "regmap_read (snd ?O) BATTERY_CHARGER_STATUS_1_REG 0"
  have o1: "fst ?O = False" by code_simp
  have off: "?O = (False, snd ?O)" using o1 by (simp add: prod_eq_iff)
  have r1: "fst (snd ?R) = 5" by code_simp
  have rd: "?R = (fst ?R, 5, snd (snd ?R))" using r1 by (simp add: prod_eq_iff)
  have ok: "\<not> fst ?R < 0" by code_simp
  have v: "(if (5 :: u32) AND BATTERY_CHARGER_STATUS_MASK ?h = TERMINATE_CHARGE ?h
                 \<or> 5 AND BATTERY_CHARGER_STATUS_MASK ?h = INHIBIT_CHARGE ?h
              then POWER_SUPPLY_STATUS_FULL ?h else POWER_SUPPLY_STATUS_DISCHARGING ?h)
           = POWER_SUPPLY_STATUS_FULL ?h" by code_simp
  have "fst (snd (smb235x_get_prop_battery_status ?h env_unplugged_inhibit 0))
        = POWER_SUPPLY_STATUS_FULL ?h"
    unfolding battery_status_offline [OF off rd ok, of 0] v by simp
  with o1 ok show ?thesis by blast
qed

text \<open>
  C7 as stated fails at INHIBIT_CHARGE: with the port offline the status is Full, not
  Discharging.
\<close>

theorem battery_status_offline_inhibit_is_full:
  "fst (smb235x_get_usb_online smb235x_hdr env_unplugged_inhibit) = False
   \<and> regs env_unplugged_inhibit BATTERY_CHARGER_STATUS_1_REG
        AND BATTERY_CHARGER_STATUS_MASK smb235x_hdr = INHIBIT_CHARGE smb235x_hdr
   \<and> INHIBIT_CHARGE smb235x_hdr \<noteq> TERMINATE_CHARGE smb235x_hdr
   \<and> fst (smb235x_get_prop_battery_status smb235x_hdr env_unplugged_inhibit 0) = 0
   \<and> fst (snd (smb235x_get_prop_battery_status smb235x_hdr env_unplugged_inhibit 0))
        = POWER_SUPPLY_STATUS_FULL smb235x_hdr
   \<and> fst (snd (smb235x_get_prop_battery_status smb235x_hdr env_unplugged_inhibit 0))
        \<noteq> POWER_SUPPLY_STATUS_DISCHARGING smb235x_hdr"
  by code_simp

section \<open>Setting the charge targets\<close>


text \<open>
  C6 at a failing write.  With no fuel gauge registered and the register write failing
  with -5, smb235x_batt_set_prop returns -5 and the register is untouched, yet
  float_volt_uv has gone from 8800000 to the caller's 8400000 and fastchg_curr_ua from
  3250000 to the caller's 3000000.  The periodic path smb235x_update_fv_fcc, on the same
  failing write of the fuel gauge's 3000000, leaves fastchg_curr_ua at 3250000.
\<close>

theorem batt_set_prop_caches_failed_write:
  "fst (smb235x_batt_set_prop chip_parse_dt env_bus_fault
          POWER_SUPPLY_PROP_CONSTANT_CHARGE_VOLTAGE_MAX 8400000) = - 5
   \<and> regs (snd (snd (smb235x_batt_set_prop chip_parse_dt env_bus_fault
          POWER_SUPPLY_PROP_CONSTANT_CHARGE_VOLTAGE_MAX 8400000))) CHGR_FLOAT_VOLTAGE_CFG_REG
        = regs env_bus_fault CHGR_FLOAT_VOLTAGE_CFG_REG
   \<and> float_volt_uv chip_parse_dt = 8800000
   \<and> float_volt_uv (fst (snd (smb235x_batt_set_prop chip_parse_dt env_bus_fault
          POWER_SUPPLY_PROP_CONSTANT_CHARGE_VOLTAGE_MAX 8400000))) = 8400000
   \<and> fst (smb235x_batt_set_prop chip_parse_dt env_bus_fault
          POWER_SUPPLY_PROP_CONSTANT_CHARGE_CURRENT_MAX 3000000) = - 5
   \<and> fastchg_curr_ua chip_parse_dt = 3250000
   \<and> fastchg_curr_ua (fst (snd (smb235x_batt_set_prop chip_parse_dt env_bus_fault
          POWER_SUPPLY_PROP_CONSTANT_CHARGE_CURRENT_MAX 3000000))) = 3000000
   \<and> fastchg_curr_ua (fst (smb235x_update_fv_fcc chip_parse_dt
          (env_bus_fault\<lparr>bms_reg := Some (bms_targets 50)\<rparr>))) = 3250000"
  by code_simp

section \<open>Register codes\<close>


lemma u8_code:
  fixes w :: "32 word"
  assumes "unat w < 256"
  shows "unat (of_u8 (to_u8 w)) = unat w"
proof -
  have a: "unat (ucast w :: 8 word) = unat w"
    using assms by (simp add: unsigned_ucast_eq unsigned_take_bit_eq take_bit_nat_eq_self)
  have "unat (ucast (ucast w :: 8 word) :: 32 word) = unat (ucast w :: 8 word)"
    using assms a by (simp add: unsigned_ucast_eq unsigned_take_bit_eq take_bit_nat_eq_self)
  with a show ?thesis by (simp add: of_u8_def to_u8_def)
qed

lemma c_div_code:
  assumes "0 \<le> sint a"
  shows "unat (c_div a CURRENT_STEP_MA) = nat (sint a div 50)"
    and "unat (c_div (c_div a MICRO_TO_MILLI) CURRENT_STEP_MA) = nat (sint a div 1000 div 50)"
proof -
  have s: "sint (c_div a CURRENT_STEP_MA) = sint a div 50"
    using assms by (simp add: c_div_nonneg CURRENT_STEP_MA_def)
  have "0 \<le> sint a div 50" using assms by (simp add: pos_imp_zdiv_nonneg_iff)
  then show "unat (c_div a CURRENT_STEP_MA) = nat (sint a div 50)"
    using s by (simp add: unat_of_nonneg)
  have m: "sint (c_div a MICRO_TO_MILLI) = sint a div 1000"
    using assms by (simp add: c_div_nonneg MICRO_TO_MILLI_def)
  have m0: "0 \<le> sint (c_div a MICRO_TO_MILLI)"
    unfolding m using assms by (simp add: pos_imp_zdiv_nonneg_iff)
  have t: "sint (c_div (c_div a MICRO_TO_MILLI) CURRENT_STEP_MA) = sint a div 1000 div 50"
    using m0 m by (simp add: c_div_nonneg CURRENT_STEP_MA_def)
  have "0 \<le> sint a div 1000 div 50" using assms by (simp add: pos_imp_zdiv_nonneg_iff)
  then show "unat (c_div (c_div a MICRO_TO_MILLI) CURRENT_STEP_MA) = nat (sint a div 1000 div 50)"
    using t by (simp add: unat_of_nonneg)
qed

lemma plain_code:
  assumes "0 \<le> sint ua" "sint ua div 1000 div 50 < 256"
  shows "unat (of_u8 (to_u8 (c_div (c_div ua MICRO_TO_MILLI) CURRENT_STEP_MA)))
           = nat (sint ua div 1000 div 50)"
  using assms by (simp add: u8_code c_div_code)

lemma biased_code:
  assumes "0 \<le> sint ua" "sint ua div 1000 div 50 + 1 < 256"
  shows "unat (of_u8 (to_u8 (c_div (c_div ua MICRO_TO_MILLI) CURRENT_STEP_MA + 1)))
           = nat (sint ua div 1000 div 50 + 1)"
proof -
  let ?q = "c_div (c_div ua MICRO_TO_MILLI) CURRENT_STEP_MA"
  have q: "unat ?q = nat (sint ua div 1000 div 50)" using assms(1) by (rule c_div_code)
  have q0: "0 \<le> sint ua div 1000 div 50" using assms(1) by (simp add: pos_imp_zdiv_nonneg_iff)
  have "nat (sint ua div 1000 div 50) + 1 < 4294967296" using q0 assms(2) by linarith
  then have "unat (?q + 1) = unat ?q + 1"
    using q by (simp add: unat_word_ariths)
  then have u: "unat (?q + 1) = nat (sint ua div 1000 div 50 + 1)"
    using q q0 by (simp add: nat_add_distrib)
  then have "unat (?q + 1) < 256" using assms(2) q0 by linarith
  from u8_code [OF this] u show ?thesis by simp
qed


lemma write_idle_eq:
  "rcs e = [] \<Longrightarrow>
   regmap_write e r v
     = (0, e\<lparr>rcs := [], trace := BusWrite r v 0 # trace e, regs := (regs e)(r := v)\<rparr>)"
  by (simp add: regmap_write_def next_rc_def Let_def)

lemma config_chg_idle:
  assumes "rcs e = []"
  shows "regs (snd (smb235x_config_chg_current_voltage c e))
     = (regs e)
       (CHGR_FAST_CHARGE_CURRENT_CFG_REG :=
          of_u8 (to_u8 (c_div (c_div (fastchg_curr_ua c) MICRO_TO_MILLI) CURRENT_STEP_MA + 1)),
        CHGR_MAX_FAST_CHARGE_CURRENT_CFG_REG :=
          of_u8 (to_u8 (c_div (c_div (max_fcc_ua c) MICRO_TO_MILLI) CURRENT_STEP_MA + 1)),
        CHGR_FLOAT_VOLTAGE_CFG_REG :=
          of_u8 (to_u8 (c_div (c_div (float_volt_uv c) MICRO_TO_MILLI - FLOAT_VOLTAGE_BASE_MV)
                          FLOAT_VOLTAGE_STEP_MV)),
        CHGR_TRICKLE_CHARGE_CURRENT_CFG_REG :=
          of_u8 (to_u8 (c_div (c_div (trickle_charge_current_ua c) MICRO_TO_MILLI) CURRENT_STEP_MA)),
        CHGR_PRE_CHARGE_CURRENT_CFG_REG :=
          of_u8 (to_u8 (c_div (c_div (pre_charge_current_ua c) MICRO_TO_MILLI) CURRENT_STEP_MA)),
        CHGR_MAX_PRE_CHARGER_CURRENT_CFG_REG :=
          of_u8 (to_u8 (c_div (c_div (max_pre_charge_current_ua c) MICRO_TO_MILLI)
                          CURRENT_STEP_MA)))"
  using assms by (simp add: smb235x_config_chg_current_voltage_def Let_def write_idle_eq)

text \<open>
  C8.  With no bus failure and values in the range of the 8-bit registers, the code
  written for the fast-charge and the max-fast-charge current is ua / 1000 / 50 + 1 (by
  smb235x_config_chg_current_voltage and by smb235x_set_fcc), the codes for the trickle
  and pre-charge currents are ua / 1000 / 50, and the input-current-limit code written
  by smb235x_set_icl_sw is ma / 50.
\<close>

theorem current_register_codes:
  assumes idle: "rcs e = []"
  shows "(0 \<le> sint (fastchg_curr_ua c) \<and> sint (fastchg_curr_ua c) div 1000 div 50 + 1 < 256
           \<longrightarrow> unat (regs (snd (smb235x_config_chg_current_voltage c e))
                        CHGR_FAST_CHARGE_CURRENT_CFG_REG)
                 = nat (sint (fastchg_curr_ua c) div 1000 div 50 + 1))
       \<and> (0 \<le> sint (max_fcc_ua c) \<and> sint (max_fcc_ua c) div 1000 div 50 + 1 < 256
           \<longrightarrow> unat (regs (snd (smb235x_config_chg_current_voltage c e))
                        CHGR_MAX_FAST_CHARGE_CURRENT_CFG_REG)
                 = nat (sint (max_fcc_ua c) div 1000 div 50 + 1))
       \<and> (0 \<le> sint (trickle_charge_current_ua c)
             \<and> sint (trickle_charge_current_ua c) div 1000 div 50 < 256
           \<longrightarrow> unat (regs (snd (smb235x_config_chg_current_voltage c e))
                        CHGR_TRICKLE_CHARGE_CURRENT_CFG_REG)
                 = nat (sint (trickle_charge_current_ua c) div 1000 div 50))
       \<and> (0 \<le> sint (pre_charge_current_ua c)
             \<and> sint (pre_charge_current_ua c) div 1000 div 50 < 256
           \<longrightarrow> unat (regs (snd (smb235x_config_chg_current_voltage c e))
                        CHGR_PRE_CHARGE_CURRENT_CFG_REG)
                 = nat (sint (pre_charge_current_ua c) div 1000 div 50))
       \<and> (0 \<le> sint ua \<and> sint ua div 1000 div 50 + 1 < 256
           \<longrightarrow> unat (regs (snd (smb235x_set_fcc e ua)) CHGR_FAST_CHARGE_CURRENT_CFG_REG)
                 = nat (sint ua div 1000 div 50 + 1))
       \<and> (0 \<le> sint ma \<and> sint ma div 50 < 256
           \<longrightarrow> unat (regs (snd (smb235x_set_icl_sw h e ma)) USBIN_CURRENT_LIMIT_CFG_REG)
                 = nat (sint ma div 50))"
proof (intro conjI impI)
  assume "0 \<le> sint (fastchg_curr_ua c) \<and> sint (fastchg_curr_ua c) div 1000 div 50 + 1 < 256"
  then show "unat (regs (snd (smb235x_config_chg_current_voltage c e))
                        CHGR_FAST_CHARGE_CURRENT_CFG_REG)
                 = nat (sint (fastchg_curr_ua c) div 1000 div 50 + 1)"
    by (simp add: config_chg_idle [OF idle] biased_code)
next
  assume "0 \<le> sint (max_fcc_ua c) \<and> sint (max_fcc_ua c) div 1000 div 50 + 1 < 256"
  then show "unat (regs (snd (smb235x_config_chg_current_voltage c e))
                        CHGR_MAX_FAST_CHARGE_CURRENT_CFG_REG)
                 = nat (sint (max_fcc_ua c) div 1000 div 50 + 1)"
    by (simp add: config_chg_idle [OF idle] biased_code)
next
  assume "0 \<le> sint (trickle_charge_current_ua c)
             \<and> sint (trickle_charge_current_ua c) div 1000 div 50 < 256"
  then show "unat (regs (snd (smb235x_config_chg_current_voltage c e))
                        CHGR_TRICKLE_CHARGE_CURRENT_CFG_REG)
                 = nat (sint (trickle_charge_current_ua c) div 1000 div 50)"
    by (simp add: config_chg_idle [OF idle] plain_code)
next
  assume "0 \<le> sint (pre_charge_current_ua c)
             \<and> sint (pre_charge_current_ua c) div 1000 div 50 < 256"
  then show "unat (regs (snd (smb235x_config_chg_current_voltage c e))
                        CHGR_PRE_CHARGE_CURRENT_CFG_REG)
                 = nat (sint (pre_charge_current_ua c) div 1000 div 50)"
    by (simp add: config_chg_idle [OF idle] plain_code)
next
  assume "0 \<le> sint ua \<and> sint ua div 1000 div 50 + 1 < 256"
  then show "unat (regs (snd (smb235x_set_fcc e ua)) CHGR_FAST_CHARGE_CURRENT_CFG_REG)
                 = nat (sint ua div 1000 div 50 + 1)"
    by (simp add: smb235x_set_fcc_def Let_def write_idle_eq [OF idle] biased_code)
next
  assume a: "0 \<le> sint ma \<and> sint ma div 50 < 256"
  then have "0 \<le> sint ma div 50" by (simp add: pos_imp_zdiv_nonneg_iff)
  with a have "unat (c_div ma CURRENT_STEP_MA) < 256" by (simp add: c_div_code(1) nat_less_iff)
  from u8_code [OF this] a
  show "unat (regs (snd (smb235x_set_icl_sw h e ma)) USBIN_CURRENT_LIMIT_CFG_REG)
                 = nat (sint ma div 50)"
    by (simp add: set_icl_sw_programs [OF idle] c_div_code(1))
qed

theorem current_register_codes_witness:
  "rcs env_idle = []
   \<and> 0 \<le> sint (fastchg_curr_ua chip_parse_dt)
   \<and> sint (fastchg_curr_ua chip_parse_dt) div 1000 div 50 + 1 < 256
   \<and> unat (regs (snd (smb235x_config_chg_current_voltage chip_parse_dt env_idle))
              CHGR_FAST_CHARGE_CURRENT_CFG_REG) = 66
   \<and> unat (regs (snd (smb235x_config_chg_current_voltage chip_parse_dt env_idle))
              CHGR_MAX_FAST_CHARGE_CURRENT_CFG_REG) = 66
   \<and> unat (regs (snd (smb235x_config_chg_current_voltage chip_parse_dt env_idle))
              CHGR_TRICKLE_CHARGE_CURRENT_CFG_REG) = 1
   \<and> unat (regs (snd (smb235x_config_chg_current_voltage chip_parse_dt env_idle))
              CHGR_PRE_CHARGE_CURRENT_CFG_REG) = 15
   \<and> unat (regs (snd (smb235x_set_fcc env_idle 3000000)) CHGR_FAST_CHARGE_CURRENT_CFG_REG) = 61
   \<and> unat (regs (snd (smb235x_set_icl_sw smb235x_hdr env_idle 1500))
              USBIN_CURRENT_LIMIT_CFG_REG) = 30"
proof -
  have idle: "rcs env_idle = []" by (simp add: env_idle_def)
  have f: "0 \<le> sint (fastchg_curr_ua chip_parse_dt)
             \<and> sint (fastchg_curr_ua chip_parse_dt) div 1000 div 50 + 1 < 256" by code_simp
  have fv: "nat (sint (fastchg_curr_ua chip_parse_dt) div 1000 div 50 + 1) = 66" by code_simp
  have m: "0 \<le> sint (max_fcc_ua chip_parse_dt)
             \<and> sint (max_fcc_ua chip_parse_dt) div 1000 div 50 + 1 < 256" by code_simp
  have mv: "nat (sint (max_fcc_ua chip_parse_dt) div 1000 div 50 + 1) = 66" by code_simp
  have t: "0 \<le> sint (trickle_charge_current_ua chip_parse_dt)
             \<and> sint (trickle_charge_current_ua chip_parse_dt) div 1000 div 50 < 256" by code_simp
  have tv: "nat (sint (trickle_charge_current_ua chip_parse_dt) div 1000 div 50) = 1" by code_simp
  have p: "0 \<le> sint (pre_charge_current_ua chip_parse_dt)
             \<and> sint (pre_charge_current_ua chip_parse_dt) div 1000 div 50 < 256" by code_simp
  have pv: "nat (sint (pre_charge_current_ua chip_parse_dt) div 1000 div 50) = 15" by code_simp
  have u: "0 \<le> sint (3000000 :: s32) \<and> sint (3000000 :: s32) div 1000 div 50 + 1 < 256"
    by code_simp
  have uv: "nat (sint (3000000 :: s32) div 1000 div 50 + 1) = 61" by code_simp
  have i: "0 \<le> sint (1500 :: s32) \<and> sint (1500 :: s32) div 50 < 256" by code_simp
  have iv: "nat (sint (1500 :: s32) div 50) = 30" by code_simp
  note T = current_register_codes [OF idle, of chip_parse_dt 3000000 1500 smb235x_hdr]
  from T f m t p u i idle show ?thesis unfolding fv mv tv pv uv iv by blast
qed

section \<open>State of charge rescaling\<close>


lemma sint_mult_255:
  fixes a :: "32 word"
  assumes "0 \<le> sint a" "sint a \<le> 100"
  shows "sint (a * 255) = sint a * 255"
proof -
  have "sint (a * 255) = signed_take_bit 31 (sint a * 255)"
    by (simp add: sint_word_ariths)
  also have "\<dots> = sint a * 255"
    using assms by (intro signed_take_bit_int_eq_self) simp_all
  finally show ?thesis .
qed

lemma sint_add_exact:
  fixes a b :: "32 word"
  assumes "- (2 ^ 31) \<le> sint a + sint b" "sint a + sint b < 2 ^ 31"
  shows "sint (a + b) = sint a + sint b"
  using assms by (simp add: sint_word_ariths signed_take_bit_int_eq_self)

lemma c_div_100_2: "c_div 100 2 = 50"
  by (simp add: c_div_def signed_divide_int_def)

lemma div_round_closest_soc:
  assumes "0 \<le> sint cap" "sint cap \<le> 100"
  shows "sint (DIV_ROUND_CLOSEST (cap * 255) 100) = (sint cap * 255 + 50) div 100"
proof (cases "sint cap = 0")
  case True
  have "cap = word_of_int (sint cap)" by simp
  with True have "cap = 0" by simp
  then show ?thesis
    by (simp add: DIV_ROUND_CLOSEST_def c_div_100_2 c_div_def signed_divide_int_def)
next
  case False
  with assms have pos: "0 < sint cap" by simp
  have x: "sint (cap * 255) = sint cap * 255" using assms by (rule sint_mult_255)
  have xp: "0 <s cap * 255" using pos x by (simp add: word_sless_alt)
  have s: "sint (cap * 255 + 50) = sint cap * 255 + 50"
    using assms x by (subst sint_add_exact) simp_all
  have "DIV_ROUND_CLOSEST (cap * 255) 100 = c_div (cap * 255 + 50) 100"
    using xp by (simp add: DIV_ROUND_CLOSEST_def c_div_100_2 word_sless_alt)
  then show ?thesis using s assms by (simp add: c_div_nonneg)
qed


lemma update_bits_idle_eq:
  "rcs e = [] \<Longrightarrow>
   regmap_update_bits e r m v
     = (0, e\<lparr>rcs := [], trace := BusUpdate r m v 0 # trace e,
              regs := (regs e)(r := (regs e r AND NOT m) OR (v AND m))\<rparr>)"
  by (simp add: regmap_update_bits_def next_rc_def Let_def)

text \<open>
  C9.  When the fuel gauge answers the capacity query with a value between 0 and 100 and
  no bus transaction fails, smb235x_update_soc leaves (capacity * 255 + 50) / 100 in the
  step-charge SOC register: the integer nearest to capacity * 255 / 100, halves rounded
  up, and at most 255.  A capacity of 50 gives 128 and a capacity of 100 gives 255.
\<close>

theorem update_soc_rescales:
  assumes q: "smb235x_get_prop_from_bms c e POWER_SUPPLY_PROP_CAPACITY 0 = (rc, cap, c1)"
    and ok: "\<not> rc < 0"
    and lo: "0 \<le> sint cap" and hi: "sint cap \<le> 100"
    and idle: "rcs e = []"
  shows "int (unat (regs (snd (smb235x_update_soc h c e)) CHGR_STEP_CHG_SOC_VBATT_V_REG))
           = (sint cap * 255 + 50) div 100
       \<and> \<bar>100 * ((sint cap * 255 + 50) div 100) - 255 * sint cap\<bar> \<le> 50
       \<and> (sint cap * 255 + 50) div 100 \<le> 255"
proof -
  let ?s = "DIV_ROUND_CLOSEST (cap * 255) 100"
  have s: "sint ?s = (sint cap * 255 + 50) div 100" using lo hi by (rule div_round_closest_soc)
  have b1: "0 \<le> (sint cap * 255 + 50) div 100"
    using lo by (simp add: pos_imp_zdiv_nonneg_iff)
  have "sint cap * 255 + 50 \<le> 25550" using hi by simp
  then have "(sint cap * 255 + 50) div 100 \<le> 25550 div 100" by (intro zdiv_mono1) simp_all
  then have b2: "(sint cap * 255 + 50) div 100 \<le> 255" by simp
  note b = b1 b2
  have u: "unat ?s = nat ((sint cap * 255 + 50) div 100)"
    using s b(1) by (simp add: unat_of_nonneg)
  then have "unat ?s < 256" using b by linarith
  from u8_code [OF this] u
  have code: "unat (of_u8 (to_u8 ?s)) = nat ((sint cap * 255 + 50) div 100)" by simp
  have run: "regs (snd (smb235x_update_soc h c e)) CHGR_STEP_CHG_SOC_VBATT_V_REG
               = of_u8 (to_u8 ?s)"
    using ok idle by (simp add: smb235x_update_soc_def q Let_def write_idle_eq update_bits_idle_eq)
  define a where "a = sint cap * 255 + 50"
  have d: "a = 100 * (a div 100) + a mod 100" by simp
  have m: "0 \<le> a mod 100" "a mod 100 < 100" by simp_all
  have "- 50 \<le> 100 * (a div 100) - 255 * sint cap" "100 * (a div 100) - 255 * sint cap \<le> 50"
    using d m unfolding a_def by linarith+
  then have near: "\<bar>100 * ((sint cap * 255 + 50) div 100) - 255 * sint cap\<bar> \<le> 50"
    unfolding a_def by (simp add: abs_le_iff)
  show ?thesis using run code b near by simp
qed


theorem update_soc_rescales_witness:
  "(\<not> fst (smb235x_get_prop_from_bms chip_kzalloc (env_bms 50) POWER_SUPPLY_PROP_CAPACITY 0) < 0
     \<and> fst (snd (smb235x_get_prop_from_bms chip_kzalloc (env_bms 50)
                    POWER_SUPPLY_PROP_CAPACITY 0)) = 50
     \<and> rcs (env_bms 50) = []
     \<and> int (unat (regs (snd (smb235x_update_soc smb235x_hdr chip_kzalloc (env_bms 50)))
                     CHGR_STEP_CHG_SOC_VBATT_V_REG)) = 128)
   \<and> (fst (snd (smb235x_get_prop_from_bms chip_kzalloc (env_bms 100)
                    POWER_SUPPLY_PROP_CAPACITY 0)) = 100
     \<and> int (unat (regs (snd (smb235x_update_soc smb235x_hdr chip_kzalloc (env_bms 100)))
                     CHGR_STEP_CHG_SOC_VBATT_V_REG)) = 255)"
proof -
  let ?A = "smb235x_get_prop_from_bms chip_kzalloc (env_bms 50) POWER_SUPPLY_PROP_CAPACITY 0"
  let ?B = "smb235x_get_prop_from_bms chip_kzalloc (env_bms 100) POWER_SUPPLY_PROP_CAPACITY 0"
  have a1: "fst (snd ?A) = 50" by code_simp
  have a: "?A = (fst ?A, 50, snd (snd ?A))" using a1 by (simp add: prod_eq_iff)
  have aok: "\<not> fst ?A < 0" by code_simp
  have ai: "rcs (env_bms 50) = []" by code_simp
  have ar: "0 \<le> sint (50 :: s32)" "sint (50 :: s32) \<le> 100" by simp_all
  have av: "(sint (50 :: s32) * 255 + 50) div 100 = 128" by simp
  have b1: "fst (snd ?B) = 100" by code_simp
  have b: "?B = (fst ?B, 100, snd (snd ?B))" using b1 by (simp add: prod_eq_iff)
  have bok: "\<not> fst ?B < 0" by code_simp
  have bi: "rcs (env_bms 100) = []" by code_simp
  have br: "0 \<le> sint (100 :: s32)" "sint (100 :: s32) \<le> 100" by simp_all
  have bv: "(sint (100 :: s32) * 255 + 50) div 100 = 255" by simp
  from update_soc_rescales [OF a aok ar ai, of smb235x_hdr]
  have A: "int (unat (regs (snd (smb235x_update_soc smb235x_hdr chip_kzalloc (env_bms 50)))
                     CHGR_STEP_CHG_SOC_VBATT_V_REG)) = 128"
    unfolding av by blast
  from update_soc_rescales [OF b bok br bi, of smb235x_hdr]
  have B: "int (unat (regs (snd (smb235x_update_soc smb235x_hdr chip_kzalloc (env_bms 100)))
                     CHGR_STEP_CHG_SOC_VBATT_V_REG)) = 255"
    unfolding bv by blast
  from aok a1 ai A b1 B show ?thesis by blast
qed

end
